theory Spec2Isabelle
  imports Main
begin

section \<open>The collaborators of \<^verbatim>\<open>routes/redis_q.py\<close>\<close>

subsection \<open>Tasks\<close>

text \<open>
  Modelled from the spec: the module \<^verbatim>\<open>funcx_web_service.models.tasks\<close> (the classes
  \<^verbatim>\<open>TaskState\<close> and \<^verbatim>\<open>Task\<close>) is imported by the queue module but is not among the
  sources. The spec names the states of the task state machine
  (CREATED, WAITING_FOR_EP, RUNNING, SUCCESS, FAILED).
\<close>

datatype TaskState = CREATED | WAITING_FOR_EP | RUNNING | SUCCESS | FAILED

text \<open>
  Modelled from the spec: a \<^verbatim>\<open>Task\<close> is an entity exposing the mutable attributes
  \<^verbatim>\<open>task_id\<close>, \<^verbatim>\<open>status\<close> and \<^verbatim>\<open>endpoint\<close>.
\<close>

record Task =
  task_id :: string
  status :: TaskState
  endpoint :: string

subsection \<open>Exceptions and the outcome of a call\<close>

text \<open>
  The exceptions of the store client (\<^verbatim>\<open>redis.exceptions\<close>): \<open>ConnectionError\<close>, which
  the queue module names in its handlers, and \<open>ResponseError\<close>, the error reply of the
  store (a command on a key of the wrong type, a timeout outside the store's range).
\<close>

datatype redis_error = ConnectionError | ResponseError

text \<open>
  The exceptions that can leave a method of the queue module. \<open>NotConnected\<close> is the
  module's own class; its constructor stores the queue it is given. \<open>Empty\<close> is
  \<^verbatim>\<open>queue.Empty\<close>, \<open>AttributeError\<close> is what Python raises for an attribute of
  \<^verbatim>\<open>None\<close>, \<open>TypeError\<close> and \<open>JSONDecodeError\<close> come from the \<^verbatim>\<open>json\<close> module.
\<close>

datatype 'q error =
    NotConnected 'q
  | Empty
  | AttributeError
  | RedisError redis_error
  | TypeError
  | JSONDecodeError

text \<open>
  A call returns a value, raises, or never returns (a blocking pop with timeout 0 on a
  list that stays empty).
\<close>

datatype ('e, 'r) outcome = Returns 'r | Raises 'e | Blocks

subsection \<open>The store\<close>

text \<open>
  The part of the Redis server the module talks to: one key space whose values are
  hashes (field to string) or lists of strings. The server record also keeps what an
  observer of the connection sees: the commands issued so far, in order; the fate of
  the commands still to come (\<open>True\<close>: that command meets a connection failure; an
  exhausted script means no more failures); the server's clock, in seconds since the
  epoch, which only a blocking pop that times out advances; and the number of client
  handles created.
\<close>

datatype redis_value = RHash "string \<rightharpoonup> string" | RList "string list"

datatype command =
    HSET string string string
  | HGET string string
  | RPUSH string string
  | BLPOP string int

record redis_server =
  store :: "string \<rightharpoonup> redis_value"
  issued :: "command list"
  faults :: "bool list"
  clock :: int
  clients :: nat

record redis_client =
  host :: string
  client_port :: int
  ident :: nat

definition link_down :: "redis_server \<Rightarrow> bool" where
  "link_down sv = (case faults sv of [] \<Rightarrow> False | f # _ \<Rightarrow> f)"

definition sent :: "command \<Rightarrow> redis_server \<Rightarrow> redis_server" where
  "sent cmd sv = sv\<lparr>issued := issued sv @ [cmd], faults := drop 1 (faults sv)\<rparr>"

text \<open>
  \<^verbatim>\<open>redis.StrictRedis(host=..., port=..., decode_responses=True)\<close>: a new client handle.
  The library's constructor opens no connection and does not raise; the source has a
  handler for \<^verbatim>\<open>ConnectionError\<close> around it, so the model lets the fault script decide,
  which only adds outcomes to those of the library.
\<close>

definition StrictRedis ::
  "string \<Rightarrow> int \<Rightarrow> redis_server \<Rightarrow> (redis_error, redis_client) outcome \<times> redis_server" where
  "StrictRedis h p sv =
     (if link_down sv then (Raises ConnectionError, sv\<lparr>faults := drop 1 (faults sv)\<rparr>)
      else (Returns \<lparr>host = h, client_port = p, ident = clients sv\<rparr>,
            sv\<lparr>faults := drop 1 (faults sv), clients := Suc (clients sv)\<rparr>))"

text \<open>
  HSET name key value: sets one field of the hash at \<open>name\<close>, creating the hash when
  the key is absent; replies with the number of fields added. A key that holds a list
  is a type error.
\<close>

definition hset ::
  "string \<Rightarrow> string \<Rightarrow> string \<Rightarrow> redis_server \<Rightarrow> (redis_error, nat) outcome \<times> redis_server" where
  "hset name key val sv =
     (let sv1 = sent (HSET name key val) sv in
      if link_down sv then (Raises ConnectionError, sv1)
      else (case store sv name of
              None \<Rightarrow> (Returns 1, sv1\<lparr>store := (store sv)(name \<mapsto> RHash [key \<mapsto> val])\<rparr>)
            | Some (RHash h) \<Rightarrow>
                (Returns (if h key = None then 1 else 0),
                 sv1\<lparr>store := (store sv)(name \<mapsto> RHash (h(key \<mapsto> val)))\<rparr>)
            | Some (RList xs) \<Rightarrow> (Raises ResponseError, sv1)))"

text \<open>
  HGET name key: the field's value, or nothing (Python's \<^verbatim>\<open>None\<close>) when the field or
  the key is absent.
\<close>

definition hget ::
  "string \<Rightarrow> string \<Rightarrow> redis_server \<Rightarrow> (redis_error, string option) outcome \<times> redis_server" where
  "hget name key sv =
     (let sv1 = sent (HGET name key) sv in
      if link_down sv then (Raises ConnectionError, sv1)
      else (case store sv name of
              None \<Rightarrow> (Returns None, sv1)
            | Some (RHash h) \<Rightarrow> (Returns (h key), sv1)
            | Some (RList xs) \<Rightarrow> (Raises ResponseError, sv1)))"

text \<open>
  RPUSH name value: appends at the tail of the list at \<open>name\<close>, creating the list when
  the key is absent; replies with the new length.
\<close>

definition rpush ::
  "string \<Rightarrow> string \<Rightarrow> redis_server \<Rightarrow> (redis_error, nat) outcome \<times> redis_server" where
  "rpush name val sv =
     (let sv1 = sent (RPUSH name val) sv in
      if link_down sv then (Raises ConnectionError, sv1)
      else (case store sv name of
              None \<Rightarrow> (Returns 1, sv1\<lparr>store := (store sv)(name \<mapsto> RList [val])\<rparr>)
            | Some (RList xs) \<Rightarrow>
                (Returns (Suc (length xs)), sv1\<lparr>store := (store sv)(name \<mapsto> RList (xs @ [val]))\<rparr>)
            | Some (RHash h) \<Rightarrow> (Raises ResponseError, sv1)))"

text \<open>
  The timeouts the store refuses with an error reply, before it looks at any key. The
  store counts time in signed 64-bit milliseconds: it refuses a negative timeout, a
  timeout whose milliseconds exceed \<open>2\<^sup>6\<^sup>3 - 1\<close> (from 9223372036854776 seconds up), and
  a positive timeout whose deadline, the clock plus the timeout, would exceed that number.
\<close>

definition timeout_refused :: "redis_server \<Rightarrow> int \<Rightarrow> bool" where
  "timeout_refused sv timeout =
     (timeout < 0 \<or> 9223372036854775807 < timeout * 1000 \<or>
      (0 < timeout \<and> 9223372036854775807 - clock sv * 1000 < timeout * 1000))"

text \<open>
  BLPOP name timeout, with nobody else talking to the store. A timeout outside the
  store's range is an error reply. A non-empty list gives up its head at once (and the
  key disappears with its last element). On an empty or absent list the call waits: for
  \<open>timeout\<close> seconds when the timeout is positive, replying with nothing; without end
  when it is 0.
\<close>

definition blpop ::
  "string \<Rightarrow> int \<Rightarrow> redis_server \<Rightarrow>
     (redis_error, (string \<times> string) option) outcome \<times> redis_server" where
  "blpop name timeout sv =
     (let sv1 = sent (BLPOP name timeout) sv in
      if link_down sv then (Raises ConnectionError, sv1)
      else if timeout_refused sv timeout then (Raises ResponseError, sv1)
      else (case store sv name of
              Some (RHash h) \<Rightarrow> (Raises ResponseError, sv1)
            | Some (RList (x # xs)) \<Rightarrow>
                (Returns (Some (name, x)),
                 sv1\<lparr>store := (if xs = [] then (store sv)(name := None)
                                else (store sv)(name \<mapsto> RList xs))\<rparr>)
            | _ \<Rightarrow>
                (if timeout = 0 then (Blocks, sv1)
                 else (Returns None, sv1\<lparr>clock := clock sv + timeout\<rparr>))))"

section \<open>The generic queue client: class \<^verbatim>\<open>RedisQueue\<close>\<close>

record RedisQueue =
  hostname :: string
  port :: int
  redis_client :: "redis_client option"
  prefix :: string

definition RedisQueue_init :: "string \<Rightarrow> string \<Rightarrow> int \<Rightarrow> RedisQueue" where
  "RedisQueue_init pfx h p = \<lparr>hostname = h, port = p, redis_client = None, prefix = pfx\<rparr>"

text \<open>
  \<^verbatim>\<open>connect\<close>: a handle is created only when there is none. The handler of
  \<^verbatim>\<open>ConnectionError\<close> prints a line and raises the exception again.
\<close>

definition connect ::
  "'a RedisQueue_scheme \<Rightarrow> redis_server \<Rightarrow>
     ('a RedisQueue_scheme error, unit) outcome \<times> 'a RedisQueue_scheme \<times> redis_server" where
  "connect self sv =
     (case redis_client self of
        Some c \<Rightarrow> (Returns (), self, sv)
      | None \<Rightarrow>
          (case StrictRedis (hostname self) (port self) sv of
             (Returns c, sv1) \<Rightarrow> (Returns (), self\<lparr>redis_client := Some c\<rparr>, sv1)
           | (Raises e, sv1) \<Rightarrow> (Raises (RedisError e), self, sv1)
           | (Blocks, sv1) \<Rightarrow> (Blocks, self, sv1)))"

text \<open>
  The suite of the \<^verbatim>\<open>try\<close> statement of \<^verbatim>\<open>get\<close>. Python looks up
  \<^verbatim>\<open>self.redis_client.blpop\<close> before anything else, which raises \<^verbatim>\<open>AttributeError\<close>
  on \<^verbatim>\<open>None\<close>. \<open>loads\<close> is \<^verbatim>\<open>json.loads\<close> on a string (no result: the text is not
  JSON); on \<^verbatim>\<open>None\<close> it raises \<^verbatim>\<open>TypeError\<close>.
\<close>

definition get_try ::
  "(string \<Rightarrow> 'j option) \<Rightarrow> 'a RedisQueue_scheme \<Rightarrow> string \<Rightarrow> int \<Rightarrow> redis_server \<Rightarrow>
     ('a RedisQueue_scheme error, string \<times> 'j) outcome \<times> redis_server" where
  "get_try loads self kind timeout sv =
     (case redis_client self of
        None \<Rightarrow> (Raises AttributeError, sv)
      | Some c \<Rightarrow>
          (case blpop (prefix self @ ''_list'') timeout sv of
             (Raises e, sv1) \<Rightarrow> (Raises (RedisError e), sv1)
           | (Blocks, sv1) \<Rightarrow> (Blocks, sv1)
           | (Returns None, sv1) \<Rightarrow> (Raises Empty, sv1)
           | (Returns (Some (task_list, tid)), sv1) \<Rightarrow>
               (case hget (''task_'' @ tid) kind sv1 of
                  (Raises e, sv2) \<Rightarrow> (Raises (RedisError e), sv2)
                | (Blocks, sv2) \<Rightarrow> (Blocks, sv2)
                | (Returns None, sv2) \<Rightarrow> (Raises TypeError, sv2)
                | (Returns (Some jtask_info), sv2) \<Rightarrow>
                    (case loads jtask_info of
                       None \<Rightarrow> (Raises JSONDecodeError, sv2)
                     | Some task_info \<Rightarrow> (Returns (tid, task_info), sv2)))))"

text \<open>
  The \<^verbatim>\<open>except\<close> clauses of \<^verbatim>\<open>get\<close>, in the source's order; an exception that no
  clause names propagates.
\<close>

fun get_except :: "'q \<Rightarrow> 'q error \<Rightarrow> 'q error" where
  "get_except self Empty = Empty"
| "get_except self AttributeError = NotConnected self"
| "get_except self (RedisError ConnectionError) = RedisError ConnectionError"
| "get_except self e = e"

definition get ::
  "(string \<Rightarrow> 'j option) \<Rightarrow> 'a RedisQueue_scheme \<Rightarrow> string \<Rightarrow> int \<Rightarrow> redis_server \<Rightarrow>
     ('a RedisQueue_scheme error, string \<times> 'j) outcome \<times> redis_server" where
  "get loads self kind timeout sv =
     (case get_try loads self kind timeout sv of
        (Raises e, sv1) \<Rightarrow> (Raises (get_except self e), sv1)
      | (r, sv1) \<Rightarrow> (r, sv1))"

text \<open>
  The suite of the \<^verbatim>\<open>try\<close> statement of \<^verbatim>\<open>put\<close>. The attribute
  \<^verbatim>\<open>self.redis_client.hset\<close> is looked up first, then the arguments are evaluated
  (\<open>dumps\<close> is \<^verbatim>\<open>json.dumps\<close>; no result: the payload is not serializable, and
  whatever \<^verbatim>\<open>json.dumps\<close> raises then is rendered as \<open>TypeError\<close>), then the two
  commands are issued in the order of the two statements.
\<close>

definition put_try ::
  "('p \<Rightarrow> string option) \<Rightarrow> 'a RedisQueue_scheme \<Rightarrow> string \<Rightarrow> string \<Rightarrow> 'p \<Rightarrow> redis_server \<Rightarrow>
     ('a RedisQueue_scheme error, unit) outcome \<times> redis_server" where
  "put_try dumps self tid kind payload sv =
     (case redis_client self of
        None \<Rightarrow> (Raises AttributeError, sv)
      | Some c \<Rightarrow>
          (case dumps payload of
             None \<Rightarrow> (Raises TypeError, sv)
           | Some j \<Rightarrow>
               (case hset (''task_'' @ tid) kind j sv of
                  (Raises e, sv1) \<Rightarrow> (Raises (RedisError e), sv1)
                | (Blocks, sv1) \<Rightarrow> (Blocks, sv1)
                | (Returns n, sv1) \<Rightarrow>
                    (case rpush (prefix self @ ''_list'') tid sv1 of
                       (Raises e, sv2) \<Rightarrow> (Raises (RedisError e), sv2)
                     | (Blocks, sv2) \<Rightarrow> (Blocks, sv2)
                     | (Returns m, sv2) \<Rightarrow> (Returns (), sv2)))))"

fun put_except :: "'q \<Rightarrow> 'q error \<Rightarrow> 'q error" where
  "put_except self AttributeError = NotConnected self"
| "put_except self (RedisError ConnectionError) = RedisError ConnectionError"
| "put_except self e = e"

definition put ::
  "('p \<Rightarrow> string option) \<Rightarrow> 'a RedisQueue_scheme \<Rightarrow> string \<Rightarrow> string \<Rightarrow> 'p \<Rightarrow> redis_server \<Rightarrow>
     ('a RedisQueue_scheme error, unit) outcome \<times> redis_server" where
  "put dumps self tid kind payload sv =
     (case put_try dumps self tid kind payload sv of
        (Raises e, sv1) \<Rightarrow> (Raises (put_except self e), sv1)
      | (r, sv1) \<Rightarrow> (r, sv1))"

definition is_connected :: "'a RedisQueue_scheme \<Rightarrow> bool" where
  "is_connected self = (redis_client self \<noteq> None)"

section \<open>The endpoint queue: class \<^verbatim>\<open>EndpointQueue\<close>\<close>

record EndpointQueue = RedisQueue +
  queue_name :: string
  endpoint :: string

definition EndpointQueue_init :: "string \<Rightarrow> string \<Rightarrow> int \<Rightarrow> EndpointQueue" where
  "EndpointQueue_init ep h p =
     (let base = RedisQueue_init (''task_'' @ ep) h p
      in RedisQueue.extend base (EndpointQueue.fields (prefix base @ ''_list'') ep))"

text \<open>
  \<^verbatim>\<open>enqueue\<close> has no \<^verbatim>\<open>try\<close>: the two assignments to the caller's task object come
  first, then \<^verbatim>\<open>self.redis_client.rpush\<close> is looked up and called. The task as the
  caller sees it afterwards is part of the result, whatever the outcome.
\<close>

definition enqueue ::
  "'a EndpointQueue_scheme \<Rightarrow> Task \<Rightarrow> redis_server \<Rightarrow>
     ('a EndpointQueue_scheme error, unit) outcome \<times> Task \<times> redis_server" where
  "enqueue self task sv =
     (let task1 = task\<lparr>Task.endpoint := EndpointQueue.endpoint self\<rparr>;
          task2 = task1\<lparr>status := WAITING_FOR_EP\<rparr>
      in (case redis_client self of
            None \<Rightarrow> (Raises AttributeError, task2, sv)
          | Some c \<Rightarrow>
              (case rpush (queue_name self) (task_id task2) sv of
                 (Raises e, sv1) \<Rightarrow> (Raises (RedisError e), task2, sv1)
               | (Blocks, sv1) \<Rightarrow> (Blocks, task2, sv1)
               | (Returns n, sv1) \<Rightarrow> (Returns (), task2, sv1))))"

text \<open>
  \<^verbatim>\<open>dequeue\<close>, again without a \<^verbatim>\<open>try\<close>. Modelled from the spec: \<open>from_id\<close> is the
  collaborator's lookup \<^verbatim>\<open>Task.from_id(connection, task_id) -> Task\<close>, whose code is not
  among the sources; it is a parameter.
\<close>

definition dequeue ::
  "(redis_client \<Rightarrow> string \<Rightarrow> Task) \<Rightarrow> 'a EndpointQueue_scheme \<Rightarrow> int \<Rightarrow> redis_server \<Rightarrow>
     ('a EndpointQueue_scheme error, Task) outcome \<times> redis_server" where
  "dequeue from_id self timeout sv =
     (case redis_client self of
        None \<Rightarrow> (Raises AttributeError, sv)
      | Some c \<Rightarrow>
          (case blpop (queue_name self) timeout sv of
             (Raises e, sv1) \<Rightarrow> (Raises (RedisError e), sv1)
           | (Blocks, sv1) \<Rightarrow> (Blocks, sv1)
           | (Returns None, sv1) \<Rightarrow> (Raises Empty, sv1)
           | (Returns (Some (lname, tid)), sv1) \<Rightarrow> (Returns (from_id c tid), sv1)))"

section \<open>Observations on the store\<close>

text \<open>
  What a reader of the store sees at a key: the fields of the hash there (none when the
  key is absent or holds a list) and the elements of the list there (none when the key
  is absent or holds a hash).
\<close>

definition hash_at :: "redis_server \<Rightarrow> string \<Rightarrow> (string \<rightharpoonup> string)" where
  "hash_at sv name = (case store sv name of Some (RHash h) \<Rightarrow> h | _ \<Rightarrow> Map.empty)"

definition list_at :: "redis_server \<Rightarrow> string \<Rightarrow> string list" where
  "list_at sv name = (case store sv name of Some (RList xs) \<Rightarrow> xs | _ \<Rightarrow> [])"

text \<open>The next \<open>n\<close> commands meet no connection failure.\<close>

definition link_up_for :: "nat \<Rightarrow> redis_server \<Rightarrow> bool" where
  "link_up_for n sv = (True \<notin> set (take n (faults sv)))"

text \<open>Whether a key holds a list, or a hash.\<close>

definition holds_list :: "redis_server \<Rightarrow> string \<Rightarrow> bool" where
  "holds_list sv name = (case store sv name of Some (RList xs) \<Rightarrow> True | _ \<Rightarrow> False)"

definition holds_hash :: "redis_server \<Rightarrow> string \<Rightarrow> bool" where
  "holds_hash sv name = (case store sv name of Some (RHash h) \<Rightarrow> True | _ \<Rightarrow> False)"

section \<open>Concrete inputs\<close>

text \<open>
  The inputs at which the theorems below are exercised: a client handle, the queue of the
  module's own \<^verbatim>\<open>test()\<close> (prefix \<^verbatim>\<open>task\<close> at \<^verbatim>\<open>127.0.0.1\<close>) and an endpoint queue,
  both connected, and a stand-in for the JSON codec on bare words (\<open>wrap\<close> for
  \<^verbatim>\<open>json.dumps\<close>, \<open>unwrap\<close> for \<^verbatim>\<open>json.loads\<close>).
\<close>

abbreviation handle0 :: redis_client where
  "handle0 \<equiv> \<lparr>host = ''127.0.0.1'', client_port = 6379, ident = 0\<rparr>"

abbreviation task_queue :: RedisQueue where
  "task_queue \<equiv> (RedisQueue_init ''task'' ''127.0.0.1'' 6379)\<lparr>redis_client := Some handle0\<rparr>"

abbreviation ep_a_queue :: EndpointQueue where
  "ep_a_queue \<equiv> (EndpointQueue_init ''ep-a'' ''127.0.0.1'' 6379)\<lparr>redis_client := Some handle0\<rparr>"

abbreviation wrap :: "string \<Rightarrow> string option" where
  "wrap \<equiv> \<lambda>s. Some (''['' @ s @ '']'')"

abbreviation unwrap :: "string \<Rightarrow> string option" where
  "unwrap \<equiv> \<lambda>s. Some (butlast (tl s))"

section \<open>Facts about the store commands\<close>

lemma sent_simps [simp]:
  "store (sent cmd sv) = store sv"
  "issued (sent cmd sv) = issued sv @ [cmd]"
  "faults (sent cmd sv) = drop 1 (faults sv)"
  "clock (sent cmd sv) = clock sv"
  "clients (sent cmd sv) = clients sv"
  by (simp_all add: sent_def)

lemma link_up_for_not_down: "link_up_for (Suc n) sv \<Longrightarrow> \<not> link_down sv"
  by (cases "faults sv") (auto simp: link_up_for_def link_down_def)

lemma link_up_for_step:
  "link_up_for (Suc n) sv \<Longrightarrow> faults sv' = drop 1 (faults sv) \<Longrightarrow> link_up_for n sv'"
  by (cases "faults sv") (auto simp: link_up_for_def)

lemma hset_ok:
  assumes "\<not> link_down sv" and "\<not> holds_list sv name"
  shows "hset name key val sv =
    (Returns (if hash_at sv name key = None then 1 else 0),
     (sent (HSET name key val) sv)\<lparr>store := (store sv)(name \<mapsto> RHash ((hash_at sv name)(key \<mapsto> val)))\<rparr>)"
  using assms by (auto simp: hset_def hash_at_def holds_list_def Let_def split: option.splits redis_value.splits)

lemma rpush_ok:
  assumes "\<not> link_down sv" and "\<not> holds_hash sv name"
  shows "rpush name val sv =
    (Returns (Suc (length (list_at sv name))),
     (sent (RPUSH name val) sv)\<lparr>store := (store sv)(name \<mapsto> RList (list_at sv name @ [val]))\<rparr>)"
  using assms by (auto simp: rpush_def list_at_def holds_hash_def Let_def split: option.splits redis_value.splits)

lemma hget_ok:
  assumes "\<not> link_down sv" and "\<not> holds_list sv name"
  shows "hget name key sv = (Returns (hash_at sv name key), sent (HGET name key) sv)"
  using assms by (auto simp: hget_def hash_at_def holds_list_def Let_def split: option.splits redis_value.splits)

lemma blpop_head:
  assumes "\<not> link_down sv" and "\<not> timeout_refused sv timeout"
    and "store sv name = Some (RList (x # xs))"
  shows "blpop name timeout sv =
    (Returns (Some (name, x)),
     (sent (BLPOP name timeout) sv)\<lparr>store := (if xs = [] then (store sv)(name := None)
                                else (store sv)(name \<mapsto> RList xs))\<rparr>)"
  using assms by (simp add: blpop_def Let_def)

lemma blpop_timeout:
  assumes "\<not> link_down sv" and "0 < timeout" and "\<not> timeout_refused sv timeout"
    and "list_at sv name = []" "\<not> holds_hash sv name"
  shows "blpop name timeout sv =
    (Returns None, (sent (BLPOP name timeout) sv)\<lparr>clock := clock sv + timeout\<rparr>)"
  using assms by (auto simp: blpop_def Let_def list_at_def holds_hash_def split: option.splits redis_value.splits list.splits)

lemma put_ok:
  assumes "redis_client self = Some c" "dumps payload = Some j"
    "link_up_for 2 sv"
    "\<not> holds_list sv (''task_'' @ tid)" "\<not> holds_hash sv (prefix self @ ''_list'')"
    "''task_'' @ tid \<noteq> prefix self @ ''_list''"
  shows "put dumps self tid kind payload sv =
    (Returns (),
     sv\<lparr>store := (store sv)
           (''task_'' @ tid \<mapsto> RHash ((hash_at sv (''task_'' @ tid))(kind \<mapsto> j)),
            prefix self @ ''_list'' \<mapsto> RList (list_at sv (prefix self @ ''_list'') @ [tid])),
        issued := issued sv @ [HSET (''task_'' @ tid) kind j, RPUSH (prefix self @ ''_list'') tid],
        faults := drop 2 (faults sv)\<rparr>)"
proof -
  define k where "k = ''task_'' @ tid"
  define l where "l = prefix self @ ''_list''"
  have up: "link_up_for (Suc (Suc 0)) sv"
    using assms(3) by (simp add: numeral_2_eq_2)
  have up1: "\<not> link_down sv"
    using up by (rule link_up_for_not_down)
  define sv1 where "sv1 = (sent (HSET k kind j) sv)\<lparr>store := (store sv)(k \<mapsto> RHash ((hash_at sv k)(kind \<mapsto> j)))\<rparr>"
  have h: "hset k kind j sv = (Returns (if hash_at sv k kind = None then 1 else 0), sv1)"
    unfolding sv1_def using up1 assms(4) unfolding k_def [symmetric] by (rule hset_ok)
  have "link_up_for (Suc 0) sv1"
    using up by (rule link_up_for_step) (simp add: sv1_def)
  then have d1: "\<not> link_down sv1"
    by (rule link_up_for_not_down)
  have kl: "k \<noteq> l"
    using assms(6) by (simp add: k_def l_def)
  have nh: "\<not> holds_hash sv1 l"
    using assms(5) kl by (simp add: sv1_def holds_hash_def l_def [symmetric])
  have la: "list_at sv1 l = list_at sv l"
    using kl by (simp add: sv1_def list_at_def)
  have r: "rpush l tid sv1 = (Returns (Suc (length (list_at sv l))),
     (sent (RPUSH l tid) sv1)\<lparr>store := (store sv1)(l \<mapsto> RList (list_at sv l @ [tid]))\<rparr>)"
    using rpush_ok [OF d1 nh, of tid] by (simp add: la)
  have "put dumps self tid kind payload sv =
    (Returns (), (sent (RPUSH l tid) sv1)\<lparr>store := (store sv1)(l \<mapsto> RList (list_at sv l @ [tid]))\<rparr>)"
    unfolding put_def put_try_def k_def [symmetric] l_def [symmetric]
    by (simp add: assms(1,2) h r)
  also have "(sent (RPUSH l tid) sv1)\<lparr>store := (store sv1)(l \<mapsto> RList (list_at sv l @ [tid]))\<rparr> =
     sv\<lparr>store := (store sv)
           (k \<mapsto> RHash ((hash_at sv k)(kind \<mapsto> j)),
            l \<mapsto> RList (list_at sv l @ [tid])),
        issued := issued sv @ [HSET k kind j, RPUSH l tid],
        faults := drop 2 (faults sv)\<rparr>"
    by (simp add: sv1_def sent_def drop_Suc numeral_2_eq_2)
  finally show ?thesis
    unfolding k_def l_def .
qed


lemma hset_trace [simp]:
  "issued (snd (hset name key val sv)) = issued sv @ [HSET name key val]"
  "faults (snd (hset name key val sv)) = drop 1 (faults sv)"
  "clock (snd (hset name key val sv)) = clock sv"
  "clients (snd (hset name key val sv)) = clients sv"
  by (simp_all add: hset_def Let_def split: option.splits redis_value.splits)

lemma rpush_trace [simp]:
  "issued (snd (rpush name val sv)) = issued sv @ [RPUSH name val]"
  "faults (snd (rpush name val sv)) = drop 1 (faults sv)"
  "clock (snd (rpush name val sv)) = clock sv"
  "clients (snd (rpush name val sv)) = clients sv"
  by (simp_all add: rpush_def Let_def split: option.splits redis_value.splits)

lemma hset_Returns:
  "fst (hset name key val sv) = Returns n \<Longrightarrow> \<not> link_down sv \<and> \<not> holds_list sv name"
  by (auto simp: hset_def Let_def holds_list_def split: if_splits option.splits redis_value.splits)

lemma rpush_Returns:
  "fst (rpush name val sv) = Returns n \<Longrightarrow> \<not> link_down sv \<and> \<not> holds_hash sv name"
  by (auto simp: rpush_def Let_def holds_hash_def split: if_splits option.splits redis_value.splits)

lemma hset_not_Blocks [simp]: "fst (hset name key val sv) \<noteq> Blocks"
  by (simp add: hset_def Let_def split: option.splits redis_value.splits)

lemma rpush_not_Blocks [simp]: "fst (rpush name val sv) \<noteq> Blocks"
  by (simp add: rpush_def Let_def split: option.splits redis_value.splits)

lemma hset_Raises_store:
  "fst (hset name key val sv) = Raises e \<Longrightarrow> store (snd (hset name key val sv)) = store sv"
  by (auto simp: hset_def Let_def split: if_splits option.splits redis_value.splits)

lemma rpush_Raises_store:
  "fst (rpush name val sv) = Raises e \<Longrightarrow> store (snd (rpush name val sv)) = store sv"
  by (auto simp: rpush_def Let_def split: if_splits option.splits redis_value.splits)

lemma hset_frame:
  "(name', f) \<noteq> (name, key) \<Longrightarrow> hash_at (snd (hset name key val sv)) name' f = hash_at sv name' f"
  by (auto simp: hset_def Let_def hash_at_def split: if_splits option.splits redis_value.splits)

lemma rpush_frame:
  "hash_at (snd (rpush name val sv)) name' = hash_at sv name'"
  by (auto simp: rpush_def Let_def hash_at_def split: if_splits option.splits redis_value.splits)

lemma hset_written:
  "fst (hset name key val sv) = Returns n \<Longrightarrow> hash_at (snd (hset name key val sv)) name key = Some val"
  by (auto simp: hset_def Let_def hash_at_def split: if_splits option.splits redis_value.splits)

lemma hset_list_at:
  "list_at (snd (hset name key val sv)) name' = list_at sv name'"
  by (auto simp: hset_def Let_def list_at_def split: if_splits option.splits redis_value.splits)

text \<open>The outcome and final state of put, by the outcome of its two commands.\<close>

lemma put_unfold:
  fixes self :: "'a RedisQueue_scheme"
  assumes "redis_client self = Some c" "dumps payload = Some j"
  shows "put dumps self tid kind payload sv =
     (case fst (hset (''task_'' @ tid) kind j sv) of
        Raises e \<Rightarrow> (Raises (put_except self (RedisError e)), snd (hset (''task_'' @ tid) kind j sv))
      | Blocks \<Rightarrow> (Blocks, snd (hset (''task_'' @ tid) kind j sv))
      | Returns n \<Rightarrow>
          (case fst (rpush (prefix self @ ''_list'') tid (snd (hset (''task_'' @ tid) kind j sv))) of
             Raises e \<Rightarrow> (Raises (put_except self (RedisError e)),
                snd (rpush (prefix self @ ''_list'') tid (snd (hset (''task_'' @ tid) kind j sv))))
           | Blocks \<Rightarrow> (Blocks, snd (rpush (prefix self @ ''_list'') tid (snd (hset (''task_'' @ tid) kind j sv))))
           | Returns m \<Rightarrow> (Returns (), snd (rpush (prefix self @ ''_list'') tid (snd (hset (''task_'' @ tid) kind j sv))))))"
proof -
  define k where "k = ''task_'' @ tid"
  define l where "l = prefix self @ ''_list''"
  obtain r1 sv1 where h: "hset k kind j sv = (r1, sv1)"
    by (cases "hset k kind j sv")
  obtain r2 sv2 where r: "rpush l tid sv1 = (r2, sv2)"
    by (cases "rpush l tid sv1")
  show ?thesis
    unfolding put_def put_try_def k_def [symmetric] l_def [symmetric]
    by (cases r1; cases r2) (simp_all add: assms h r)
qed

lemma link_up_for_drop:
  assumes "link_up_for n sv" "i < n" "faults sv' = drop i (faults sv)"
  shows "\<not> link_down sv'"
proof
  assume "link_down sv'"
  then obtain rest where d: "drop i (faults sv) = True # rest"
    using assms(3) by (auto simp: link_down_def split: list.splits)
  then have "faults sv ! i = True"
    by (rule nth_via_drop)
  moreover have "i < length (faults sv)"
    using d by (cases "i < length (faults sv)") simp_all
  ultimately have "True \<in> set (take n (faults sv))"
    using assms(2) by (auto simp: in_set_conv_nth intro!: exI [of _ i])
  then show False
    using assms(1) by (simp add: link_up_for_def)
qed

lemma link_up_for_mono: "link_up_for n sv \<Longrightarrow> m \<le> n \<Longrightarrow> link_up_for m sv"
  by (auto simp: link_up_for_def dest: set_take_subset_set_take [THEN subsetD])

lemma link_up_for_2I:
  assumes "\<not> link_down sv" "faults sv1 = drop 1 (faults sv)" "\<not> link_down sv1"
  shows "link_up_for 2 sv"
  using assms
  by (cases "faults sv"; cases "faults sv1") (auto simp: link_up_for_def link_down_def numeral_2_eq_2)

lemma put_Returns:
  assumes "fst (put dumps self tid kind payload sv) = Returns ()"
  shows "\<exists>c j. redis_client self = Some c \<and> dumps payload = Some j \<and> link_up_for 2 sv \<and>
           \<not> holds_list sv (''task_'' @ tid) \<and> \<not> holds_hash sv (prefix self @ ''_list'') \<and>
           ''task_'' @ tid \<noteq> prefix self @ ''_list''"
proof -
  define k where "k = ''task_'' @ tid"
  define l where "l = prefix self @ ''_list''"
  obtain c where c: "redis_client self = Some c"
    using assms by (cases "redis_client self") (simp_all add: put_def put_try_def)
  obtain j where j: "dumps payload = Some j"
    using assms c by (cases "dumps payload") (simp_all add: put_def put_try_def)
  note u = put_unfold [where dumps = dumps and payload = payload and tid = tid and kind = kind and sv = sv, OF c j, folded k_def l_def]
  obtain n where n: "fst (hset k kind j sv) = Returns n"
    using assms u by (cases "fst (hset k kind j sv)") simp_all
  obtain m where m: "fst (rpush l tid (snd (hset k kind j sv))) = Returns m"
    using assms u n by (cases "fst (rpush l tid (snd (hset k kind j sv)))") simp_all
  from hset_Returns [OF n] have up: "\<not> link_down sv" and nl: "\<not> holds_list sv k"
    by simp_all
  define sv1 where "sv1 = snd (hset k kind j sv)"
  have sv1: "sv1 = (sent (HSET k kind j) sv)\<lparr>store := (store sv)(k \<mapsto> RHash ((hash_at sv k)(kind \<mapsto> j)))\<rparr>"
    unfolding sv1_def by (simp add: hset_ok [OF up nl])
  from rpush_Returns [OF m] have up1: "\<not> link_down sv1" and nh1: "\<not> holds_hash sv1 l"
    by (simp_all add: sv1_def)
  have kl: "k \<noteq> l"
    using nh1 by (auto simp: sv1 holds_hash_def)
  then have nh: "\<not> holds_hash sv l"
    using nh1 by (simp add: sv1 holds_hash_def)
  have "link_up_for 2 sv"
    using up _ up1 by (rule link_up_for_2I) (simp add: sv1)
  then show ?thesis
    using c j nl nh kl unfolding k_def l_def by blast
qed

lemmas run_defs =
  put_def put_try_def get_def get_try_def enqueue_def dequeue_def connect_def
  StrictRedis_def hset_def hget_def rpush_def blpop_def sent_def link_down_def Let_def
  RedisQueue_init_def EndpointQueue_init_def RedisQueue.extend_def EndpointQueue.fields_def
  is_connected_def hash_at_def list_at_def holds_list_def holds_hash_def link_up_for_def
  timeout_refused_def

lemma connect_failed:
  assumes "\<not> is_connected self" "fst (connect self sv) \<noteq> Returns ()"
  shows "fst (snd (connect self sv)) = self"
  using assms
  by (auto simp: is_connected_def connect_def StrictRedis_def split: if_splits)

section \<open>Use before connecting\<close>

text \<open>
  C4. On a queue whose connection handle is absent (\<^verbatim>\<open>connect\<close> was never called, or
  raised), \<^verbatim>\<open>get\<close> and \<^verbatim>\<open>put\<close> raise \<^verbatim>\<open>NotConnected\<close> carrying that very queue,
  whatever the arguments and whatever the store holds; no command reaches the store. A
  \<^verbatim>\<open>connect\<close> that does not return leaves the queue without a handle, so the same holds
  after it.
\<close>

theorem get_put_not_connected:
  assumes "\<not> is_connected self"
  shows "get loads self kind timeout sv = (Raises (NotConnected self), sv) \<and>
         put dumps self tid kind payload sv = (Raises (NotConnected self), sv) \<and>
         (fst (connect self sv) \<noteq> Returns () \<longrightarrow>
            \<not> is_connected (fst (snd (connect self sv))))"
  using assms connect_failed [OF assms, of sv]
  by (simp add: is_connected_def get_def get_try_def put_def put_try_def)

theorem get_put_not_connected_witness:
  "\<not> is_connected (RedisQueue_init ''task'' ''127.0.0.1'' 6379) \<and>
   get unwrap (RedisQueue_init ''task'' ''127.0.0.1'' 6379) ''result'' 1
       \<lparr>store = [''task_list'' \<mapsto> RList [''01''], ''task_01'' \<mapsto> RHash [''result'' \<mapsto> ''[ok]'']],
        issued = [], faults = [True], clock = 0, clients = 0\<rparr>
     = (Raises (NotConnected (RedisQueue_init ''task'' ''127.0.0.1'' 6379)),
        \<lparr>store = [''task_list'' \<mapsto> RList [''01''], ''task_01'' \<mapsto> RHash [''result'' \<mapsto> ''[ok]'']],
         issued = [], faults = [True], clock = 0, clients = 0\<rparr>) \<and>
   put wrap (RedisQueue_init ''task'' ''127.0.0.1'' 6379) ''01'' ''result'' ''ok''
       \<lparr>store = [''task_list'' \<mapsto> RList [''01''], ''task_01'' \<mapsto> RHash [''result'' \<mapsto> ''[ok]'']],
        issued = [], faults = [True], clock = 0, clients = 0\<rparr>
     = (Raises (NotConnected (RedisQueue_init ''task'' ''127.0.0.1'' 6379)),
        \<lparr>store = [''task_list'' \<mapsto> RList [''01''], ''task_01'' \<mapsto> RHash [''result'' \<mapsto> ''[ok]'']],
         issued = [], faults = [True], clock = 0, clients = 0\<rparr>) \<and>
   fst (connect (RedisQueue_init ''task'' ''127.0.0.1'' 6379)
       \<lparr>store = [''task_list'' \<mapsto> RList [''01''], ''task_01'' \<mapsto> RHash [''result'' \<mapsto> ''[ok]'']],
        issued = [], faults = [True], clock = 0, clients = 0\<rparr>)
     = Raises (RedisError ConnectionError) \<and>
   \<not> is_connected (fst (snd (connect (RedisQueue_init ''task'' ''127.0.0.1'' 6379)
       \<lparr>store = [''task_list'' \<mapsto> RList [''01''], ''task_01'' \<mapsto> RHash [''result'' \<mapsto> ''[ok]'']],
        issued = [], faults = [True], clock = 0, clients = 0\<rparr>)))"
proof -
  let ?q = "RedisQueue_init ''task'' ''127.0.0.1'' 6379"
  let ?sv = "\<lparr>store = [''task_list'' \<mapsto> RList [''01''], ''task_01'' \<mapsto> RHash [''result'' \<mapsto> ''[ok]'']],
        issued = [], faults = [True], clock = 0, clients = 0\<rparr>"
  have h: "\<not> is_connected ?q"
    by (simp add: is_connected_def RedisQueue_init_def)
  have f: "fst (connect ?q ?sv) = Raises (RedisError ConnectionError)"
    by (simp add: run_defs)
  from get_put_not_connected [OF h, where loads = unwrap and kind = "''result''" and timeout = 1
      and sv = ?sv and dumps = wrap and tid = "''01''" and payload = "''ok''"]
  show ?thesis
    using h f by simp
qed

section \<open>The layout of the keys\<close>

text \<open>
  C3. A \<^verbatim>\<open>put\<close> that returns has issued exactly two commands, HSET of the encoded payload
  on key \<^verbatim>\<open>task_<task_id>\<close>, field \<open>kind\<close>, then RPUSH of the task id on key
  \<^verbatim>\<open><prefix>_list\<close>, and these two keys are the only ones whose value changed: the hash
  gained or replaced that one field, the list gained the id at its tail. An endpoint queue
  built for endpoint \<open>e\<close> has prefix \<^verbatim>\<open>task_<e>\<close> and list key \<^verbatim>\<open>task_<e>_list\<close>.
\<close>

theorem put_key_layout:
  assumes "dumps payload = Some j"
    and "fst (put dumps self tid kind payload sv) = Returns ()"
  shows "issued (snd (put dumps self tid kind payload sv)) =
           issued sv @ [HSET (''task_'' @ tid) kind j, RPUSH (prefix self @ ''_list'') tid] \<and>
         store (snd (put dumps self tid kind payload sv)) =
           (store sv)
             (''task_'' @ tid \<mapsto> RHash ((hash_at sv (''task_'' @ tid))(kind \<mapsto> j)),
              prefix self @ ''_list'' \<mapsto> RList (list_at sv (prefix self @ ''_list'') @ [tid])) \<and>
         prefix (EndpointQueue_init e h p) = ''task_'' @ e \<and>
         queue_name (EndpointQueue_init e h p) = ''task_'' @ e @ ''_list''"
proof -
  from put_Returns [OF assms(2)] assms(1) obtain c where
    "redis_client self = Some c" "dumps payload = Some j" "link_up_for 2 sv"
    "\<not> holds_list sv (''task_'' @ tid)" "\<not> holds_hash sv (prefix self @ ''_list'')"
    "''task_'' @ tid \<noteq> prefix self @ ''_list''"
    by auto
  from put_ok [where dumps = dumps and payload = payload, OF this] show ?thesis
    by (simp add: EndpointQueue_init_def RedisQueue_init_def RedisQueue.extend_def EndpointQueue.fields_def)
qed

theorem put_key_layout_witness:
  "wrap ''ok'' = Some ''[ok]'' \<and>
   fst (put wrap ep_a_queue ''t1'' ''result'' ''ok''
          \<lparr>store = Map.empty, issued = [], faults = [], clock = 0, clients = 1\<rparr>) = Returns () \<and>
   issued (snd (put wrap ep_a_queue ''t1'' ''result'' ''ok''
          \<lparr>store = Map.empty, issued = [], faults = [], clock = 0, clients = 1\<rparr>))
     = [HSET ''task_t1'' ''result'' ''[ok]'', RPUSH ''task_ep-a_list'' ''t1''] \<and>
   store (snd (put wrap ep_a_queue ''t1'' ''result'' ''ok''
          \<lparr>store = Map.empty, issued = [], faults = [], clock = 0, clients = 1\<rparr>))
     = [''task_t1'' \<mapsto> RHash [''result'' \<mapsto> ''[ok]''], ''task_ep-a_list'' \<mapsto> RList [''t1'']] \<and>
   prefix (EndpointQueue_init ''ep-a'' ''127.0.0.1'' 6379) = ''task_ep-a'' \<and>
   queue_name (EndpointQueue_init ''ep-a'' ''127.0.0.1'' 6379) = ''task_ep-a_list''"
proof -
  let ?sv = "\<lparr>store = Map.empty, issued = [], faults = [], clock = 0, clients = 1\<rparr>"
  have d: "wrap ''ok'' = Some ''[ok]''"
    by simp
  have r: "fst (put wrap ep_a_queue ''t1'' ''result'' ''ok'' ?sv) = Returns ()"
    by (simp add: run_defs)
  show ?thesis
    using d r put_key_layout [where dumps = wrap, OF d r, of "''ep-a''" "''127.0.0.1''" 6379]
    by (simp add: run_defs)
qed

section \<open>A put followed by a get\<close>

text \<open>
  C1, as the code has it. The list is first-in first-out: \<^verbatim>\<open>get\<close> pops the head, so it
  hands back the id just put only when no older id is pending. On a connected queue whose
  list holds no pending id, when \<^verbatim>\<open>put\<close> returns and no connection failure meets the
  four commands, \<^verbatim>\<open>get\<close> with a timeout that the store does not refuse (not negative
  and within its range) returns the task id with the decoded encoding of the payload.
\<close>

theorem put_then_get:
  assumes connected: "is_connected self"
    and codec: "dumps payload = Some j" "loads j = Some p"
    and empty: "list_at sv (prefix self @ ''_list'') = []"
    and returns: "fst (put dumps self tid kind payload sv) = Returns ()"
    and up: "link_up_for 4 sv"
    and timeout: "\<not> timeout_refused sv timeout"
  shows "fst (get loads self kind timeout (snd (put dumps self tid kind payload sv))) = Returns (tid, p)"
proof -
  define k where "k = ''task_'' @ tid"
  define l where "l = prefix self @ ''_list''"
  from put_Returns [OF returns] codec(1) obtain c where c: "redis_client self = Some c"
    and nl: "\<not> holds_list sv (''task_'' @ tid)" and nh: "\<not> holds_hash sv (prefix self @ ''_list'')"
    and kl: "''task_'' @ tid \<noteq> prefix self @ ''_list''"
    by auto
  have up2: "link_up_for 2 sv"
    using up by (rule link_up_for_mono) simp
  define sv2 where "sv2 = snd (put dumps self tid kind payload sv)"
  have sv2: "sv2 = sv\<lparr>store := (store sv)(k \<mapsto> RHash ((hash_at sv k)(kind \<mapsto> j)), l \<mapsto> RList [tid]),
        issued := issued sv @ [HSET k kind j, RPUSH l tid],
        faults := drop 2 (faults sv)\<rparr>"
    unfolding sv2_def k_def l_def
    using put_ok [where dumps = dumps and payload = payload, OF c codec(1) up2 nl nh kl] empty
    by simp
  have kl': "k \<noteq> l"
    using kl by (simp add: k_def l_def)
  have d2: "\<not> link_down sv2"
    using up by (rule link_up_for_drop [where i = 2]) (simp_all add: sv2)
  define sv3 where "sv3 = (sent (BLPOP l timeout) sv2)\<lparr>store := (store sv2)(l := None)\<rparr>"
  have t2: "\<not> timeout_refused sv2 timeout"
    using timeout by (simp add: timeout_refused_def sv2)
  have b: "blpop l timeout sv2 = (Returns (Some (l, tid)), sv3)"
    using blpop_head [OF d2 t2, of l tid "[]"] by (simp add: sv2 sv3_def)
  have d3: "\<not> link_down sv3"
    using up by (rule link_up_for_drop [where i = 3])
      (simp_all add: sv3_def sv2 drop_Suc numeral_2_eq_2 numeral_3_eq_3 drop_tl)
  have nl3: "\<not> holds_list sv3 k"
    using kl' by (simp add: sv3_def sv2 holds_list_def)
  have h3: "hash_at sv3 k kind = Some j"
    using kl' by (simp add: sv3_def sv2 hash_at_def)
  have g: "hget k kind sv3 = (Returns (Some j), sent (HGET k kind) sv3)"
    using hget_ok [OF d3 nl3, of kind] by (simp add: h3)
  have "get loads self kind timeout sv2 = (Returns (tid, p), sent (HGET k kind) sv3)"
    unfolding get_def get_try_def l_def [symmetric]
    by (simp add: c b g [unfolded k_def] codec(2) k_def del: append.simps)
  then show ?thesis
    by (simp add: sv2_def)
qed

theorem put_then_get_witness:
  "is_connected task_queue \<and>
   wrap ''ok'' = Some ''[ok]'' \<and>
   unwrap ''[ok]'' = Some ''ok'' \<and>
   list_at \<lparr>store = [''task_01'' \<mapsto> RHash [''args'' \<mapsto> ''[1]'']], issued = [], faults = [],
            clock = 1800000000, clients = 1\<rparr> (prefix task_queue @ ''_list'') = [] \<and>
   fst (put wrap task_queue ''01'' ''result'' ''ok''
         \<lparr>store = [''task_01'' \<mapsto> RHash [''args'' \<mapsto> ''[1]'']], issued = [], faults = [],
          clock = 1800000000, clients = 1\<rparr>) = Returns () \<and>
   link_up_for 4 \<lparr>store = [''task_01'' \<mapsto> RHash [''args'' \<mapsto> ''[1]'']], issued = [], faults = [],
                  clock = 1800000000, clients = 1\<rparr> \<and>
   \<not> timeout_refused \<lparr>store = [''task_01'' \<mapsto> RHash [''args'' \<mapsto> ''[1]'']], issued = [],
                      faults = [], clock = 1800000000, clients = 1\<rparr> 1 \<and>
   fst (get unwrap task_queue ''result'' 1
         (snd (put wrap task_queue ''01'' ''result'' ''ok''
           \<lparr>store = [''task_01'' \<mapsto> RHash [''args'' \<mapsto> ''[1]'']], issued = [], faults = [],
            clock = 1800000000, clients = 1\<rparr>)))
     = Returns (''01'', ''ok'')"
proof -
  let ?sv = "\<lparr>store = [''task_01'' \<mapsto> RHash [''args'' \<mapsto> ''[1]'']], issued = [], faults = [],
              clock = 1800000000, clients = 1\<rparr>"
  have h1: "is_connected task_queue"
    by (simp add: is_connected_def)
  have h2: "wrap ''ok'' = Some ''[ok]''" and h3: "unwrap ''[ok]'' = Some ''ok''"
    by simp_all
  have h4: "list_at ?sv (prefix task_queue @ ''_list'') = []"
    by (simp add: list_at_def RedisQueue_init_def)
  have h5: "fst (put wrap task_queue ''01'' ''result'' ''ok'' ?sv) = Returns ()"
    by (simp add: run_defs)
  have h6: "link_up_for 4 ?sv"
    by (simp add: link_up_for_def)
  have h7: "\<not> timeout_refused ?sv 1"
    by (simp add: timeout_refused_def)
  from put_then_get [where dumps = wrap and loads = unwrap, OF h1 h2 h3 h4 h5 h6 h7]
  show ?thesis
    using h1 h4 h5 h6 h7 by simp
qed

text \<open>
  Without the condition on pending ids the statement fails: with \<^verbatim>\<open>00\<close> already
  in the list, the \<^verbatim>\<open>get\<close> after \<^verbatim>\<open>put("01", "result", "new")\<close> returns task \<^verbatim>\<open>00\<close> and
  its payload.
\<close>

theorem put_then_get_counterexample:
  "is_connected task_queue \<and>
   fst (put wrap task_queue ''01'' ''result'' ''new''
         \<lparr>store = [''task_00'' \<mapsto> RHash [''result'' \<mapsto> ''[old]''], ''task_list'' \<mapsto> RList [''00'']],
          issued = [], faults = [], clock = 1800000000, clients = 1\<rparr>) = Returns () \<and>
   fst (get unwrap task_queue ''result'' 1
         (snd (put wrap task_queue ''01'' ''result'' ''new''
           \<lparr>store = [''task_00'' \<mapsto> RHash [''result'' \<mapsto> ''[old]''], ''task_list'' \<mapsto> RList [''00'']],
            issued = [], faults = [], clock = 1800000000, clients = 1\<rparr>)))
     = Returns (''00'', ''old'') \<and>
   fst (get unwrap task_queue ''result'' 1
         (snd (put wrap task_queue ''01'' ''result'' ''new''
           \<lparr>store = [''task_00'' \<mapsto> RHash [''result'' \<mapsto> ''[old]''], ''task_list'' \<mapsto> RList [''00'']],
            issued = [], faults = [], clock = 1800000000, clients = 1\<rparr>)))
     \<noteq> Returns (''01'', ''new'')"
  by (simp add: run_defs)

lemma rpush_list_at:
  "fst (rpush name val sv) = Returns n \<Longrightarrow>
     list_at (snd (rpush name val sv)) name = list_at sv name @ [val]"
  by (auto simp: rpush_def Let_def list_at_def split: if_splits option.splits redis_value.splits)

lemma enqueue_unfold:
  assumes "redis_client self = Some c"
  shows "enqueue self task sv =
     (case fst (rpush (queue_name self) (task_id task) sv) of
        Returns n \<Rightarrow> Returns ()
      | Raises e \<Rightarrow> Raises (RedisError e)
      | Blocks \<Rightarrow> Blocks,
      task\<lparr>Task.endpoint := EndpointQueue.endpoint self, status := WAITING_FOR_EP\<rparr>,
      snd (rpush (queue_name self) (task_id task) sv))"
proof -
  obtain r sv1 where r: "rpush (queue_name self) (task_id task) sv = (r, sv1)"
    by (cases "rpush (queue_name self) (task_id task) sv")
  show ?thesis
    by (cases r) (simp_all add: enqueue_def assms r)
qed

lemma enqueue_task:
  "fst (snd (enqueue self task sv)) =
     task\<lparr>Task.endpoint := EndpointQueue.endpoint self, status := WAITING_FOR_EP\<rparr>"
proof (cases "redis_client self")
  case None
  then show ?thesis
    by (simp add: enqueue_def)
next
  case (Some c)
  then show ?thesis
    by (simp add: enqueue_unfold)
qed

section \<open>Enqueueing a task\<close>

text \<open>
  C2. Whatever the queue, the task and the store, after \<^verbatim>\<open>enqueue\<close> the caller's task has
  the queue's endpoint as its \<^verbatim>\<open>endpoint\<close> and WAITING_FOR_EP as its \<^verbatim>\<open>status\<close>, and
  nothing else of it changed; when \<^verbatim>\<open>enqueue\<close> returns, it has issued one RPUSH and the
  list at \<^verbatim>\<open>queue_name\<close> is the list before with the task's id added at the tail. The
  endpoint of a queue built for \<open>e\<close> is \<open>e\<close>, connected or not.
\<close>

theorem enqueue_effect:
  "fst (snd (enqueue self task sv)) =
     task\<lparr>Task.endpoint := EndpointQueue.endpoint self, status := WAITING_FOR_EP\<rparr> \<and>
   (fst (enqueue self task sv) = Returns () \<longrightarrow>
      list_at (snd (snd (enqueue self task sv))) (queue_name self) =
        list_at sv (queue_name self) @ [task_id task] \<and>
      issued (snd (snd (enqueue self task sv))) =
        issued sv @ [RPUSH (queue_name self) (task_id task)]) \<and>
   EndpointQueue.endpoint ((EndpointQueue_init e h p)\<lparr>redis_client := rc\<rparr>) = e"
proof (intro conjI impI)
  show "fst (snd (enqueue self task sv)) =
     task\<lparr>Task.endpoint := EndpointQueue.endpoint self, status := WAITING_FOR_EP\<rparr>"
    by (rule enqueue_task)
next
  assume ret: "fst (enqueue self task sv) = Returns ()"
  then obtain c where c: "redis_client self = Some c"
    by (cases "redis_client self") (simp_all add: enqueue_def)
  note u = enqueue_unfold [OF c, of task sv]
  from ret u obtain n where n: "fst (rpush (queue_name self) (task_id task) sv) = Returns n"
    by (cases "fst (rpush (queue_name self) (task_id task) sv)") simp_all
  show "list_at (snd (snd (enqueue self task sv))) (queue_name self) =
        list_at sv (queue_name self) @ [task_id task]"
    using rpush_list_at [OF n] by (simp add: u)
  show "issued (snd (snd (enqueue self task sv))) =
        issued sv @ [RPUSH (queue_name self) (task_id task)]"
    by (simp add: u)
next
  show "EndpointQueue.endpoint ((EndpointQueue_init e h p)\<lparr>redis_client := rc\<rparr>) = e"
    by (simp add: EndpointQueue_init_def RedisQueue_init_def Let_def RedisQueue.extend_def
        EndpointQueue.fields_def)
qed

theorem enqueue_effect_witness:
  "fst (snd (enqueue ep_a_queue \<lparr>task_id = ''t1'', status = CREATED, Task.endpoint = ''''\<rparr>
       \<lparr>store = [''task_ep-a_list'' \<mapsto> RList [''t0'']], issued = [], faults = [], clock = 0, clients = 1\<rparr>))
     = \<lparr>task_id = ''t1'', status = WAITING_FOR_EP, Task.endpoint = ''ep-a''\<rparr> \<and>
   fst (enqueue ep_a_queue \<lparr>task_id = ''t1'', status = CREATED, Task.endpoint = ''''\<rparr>
       \<lparr>store = [''task_ep-a_list'' \<mapsto> RList [''t0'']], issued = [], faults = [], clock = 0, clients = 1\<rparr>)
     = Returns () \<and>
   list_at (snd (snd (enqueue ep_a_queue \<lparr>task_id = ''t1'', status = CREATED, Task.endpoint = ''''\<rparr>
       \<lparr>store = [''task_ep-a_list'' \<mapsto> RList [''t0'']], issued = [], faults = [], clock = 0, clients = 1\<rparr>)))
       ''task_ep-a_list''
     = [''t0'', ''t1''] \<and>
   issued (snd (snd (enqueue ep_a_queue \<lparr>task_id = ''t1'', status = CREATED, Task.endpoint = ''''\<rparr>
       \<lparr>store = [''task_ep-a_list'' \<mapsto> RList [''t0'']], issued = [], faults = [], clock = 0, clients = 1\<rparr>)))
     = [RPUSH ''task_ep-a_list'' ''t1''] \<and>
   EndpointQueue.endpoint ep_a_queue = ''ep-a''"
proof -
  let ?t = "\<lparr>task_id = ''t1'', status = CREATED, Task.endpoint = ''''\<rparr>"
  let ?sv = "\<lparr>store = [''task_ep-a_list'' \<mapsto> RList [''t0'']], issued = [], faults = [], clock = 0, clients = 1\<rparr>"
  have r: "fst (enqueue ep_a_queue ?t ?sv) = Returns ()"
    by (simp add: run_defs)
  show ?thesis
    using r enqueue_effect [where self = ep_a_queue and task = ?t and sv = ?sv and e = "''ep-a''"
        and h = "''127.0.0.1''" and p = 6379 and rc = "Some handle0"]
    by (simp add: run_defs)
qed

section \<open>The endpoint queue before connecting\<close>

text \<open>
  C9. On an endpoint queue with no connection handle, \<^verbatim>\<open>enqueue\<close> and \<^verbatim>\<open>dequeue\<close>
  raise Python's own \<^verbatim>\<open>AttributeError\<close>, where \<^verbatim>\<open>get\<close> and \<^verbatim>\<open>put\<close> on the same queue
  raise \<^verbatim>\<open>NotConnected\<close>; no command reaches the store, and \<^verbatim>\<open>enqueue\<close> has already
  set the task's endpoint and status when it fails.
\<close>

theorem endpoint_queue_not_connected:
  assumes "\<not> is_connected self"
  shows "enqueue self task sv =
           (Raises AttributeError,
            task\<lparr>Task.endpoint := EndpointQueue.endpoint self, status := WAITING_FOR_EP\<rparr>, sv) \<and>
         dequeue from_id self timeout sv = (Raises AttributeError, sv) \<and>
         get loads self kind timeout sv = (Raises (NotConnected self), sv) \<and>
         put dumps self tid kind payload sv = (Raises (NotConnected self), sv)"
  using assms
  by (simp add: is_connected_def enqueue_def dequeue_def get_def get_try_def put_def put_try_def)

theorem endpoint_queue_not_connected_witness:
  "\<not> is_connected (EndpointQueue_init ''ep-a'' ''127.0.0.1'' 6379) \<and>
   enqueue (EndpointQueue_init ''ep-a'' ''127.0.0.1'' 6379)
       \<lparr>task_id = ''t1'', status = CREATED, Task.endpoint = ''''\<rparr>
       \<lparr>store = [''task_ep-a_list'' \<mapsto> RList [''t0'']], issued = [], faults = [], clock = 0, clients = 0\<rparr>
     = (Raises AttributeError,
        \<lparr>task_id = ''t1'', status = WAITING_FOR_EP, Task.endpoint = ''ep-a''\<rparr>,
        \<lparr>store = [''task_ep-a_list'' \<mapsto> RList [''t0'']], issued = [], faults = [], clock = 0, clients = 0\<rparr>) \<and>
   dequeue (\<lambda>c i. \<lparr>task_id = i, status = WAITING_FOR_EP, Task.endpoint = ''ep-a''\<rparr>)
       (EndpointQueue_init ''ep-a'' ''127.0.0.1'' 6379) 1
       \<lparr>store = [''task_ep-a_list'' \<mapsto> RList [''t0'']], issued = [], faults = [], clock = 0, clients = 0\<rparr>
     = (Raises AttributeError,
        \<lparr>store = [''task_ep-a_list'' \<mapsto> RList [''t0'']], issued = [], faults = [], clock = 0, clients = 0\<rparr>) \<and>
   fst (get unwrap (EndpointQueue_init ''ep-a'' ''127.0.0.1'' 6379) ''result'' 1
       \<lparr>store = [''task_ep-a_list'' \<mapsto> RList [''t0'']], issued = [], faults = [], clock = 0, clients = 0\<rparr>)
     = Raises (NotConnected (EndpointQueue_init ''ep-a'' ''127.0.0.1'' 6379)) \<and>
   fst (put wrap (EndpointQueue_init ''ep-a'' ''127.0.0.1'' 6379) ''t1'' ''result'' ''ok''
       \<lparr>store = [''task_ep-a_list'' \<mapsto> RList [''t0'']], issued = [], faults = [], clock = 0, clients = 0\<rparr>)
     = Raises (NotConnected (EndpointQueue_init ''ep-a'' ''127.0.0.1'' 6379))"
proof -
  have h: "\<not> is_connected (EndpointQueue_init ''ep-a'' ''127.0.0.1'' 6379)"
    by (simp add: run_defs)
  let ?t = "\<lparr>task_id = ''t1'', status = CREATED, Task.endpoint = ''''\<rparr>"
  let ?sv = "\<lparr>store = [''task_ep-a_list'' \<mapsto> RList [''t0'']], issued = [], faults = [],
              clock = 0, clients = 0\<rparr>"
  let ?from_id = "\<lambda>(c::redis_client) i. \<lparr>task_id = i, status = WAITING_FOR_EP, Task.endpoint = ''ep-a''\<rparr>"
  show ?thesis
    using h endpoint_queue_not_connected [OF h, where task = ?t and sv = ?sv
        and from_id = ?from_id and timeout = 1 and loads = unwrap and kind = "''result''"
        and dumps = wrap and tid = "''t1''" and payload = "''ok''"]
    by (simp add: EndpointQueue_init_def RedisQueue_init_def Let_def RedisQueue.extend_def
        EndpointQueue.fields_def)
qed

lemma put_except_RedisError [simp]: "put_except self (RedisError e) = RedisError e"
  by (cases e) simp_all

lemma get_except_RedisError [simp]: "get_except self (RedisError e) = RedisError e"
  by (cases e) simp_all

section \<open>A push that fails\<close>

text \<open>
  C10. Neither \<^verbatim>\<open>put\<close> nor \<^verbatim>\<open>enqueue\<close> undoes what it did before a failing RPUSH. In
  \<^verbatim>\<open>put\<close>, when HSET has replied and RPUSH raises (a connection failure, or the list key
  holding a hash), the exception leaves \<^verbatim>\<open>put\<close>, the hash at \<^verbatim>\<open>task_<task_id>\<close> keeps the
  field just written and the list is as before. In \<^verbatim>\<open>enqueue\<close>, when RPUSH raises, the
  exception leaves \<^verbatim>\<open>enqueue\<close>, the task keeps its new endpoint and status and the store
  is as before.
\<close>

theorem push_failure_keeps_effects:
  "(redis_client self = Some c \<and> dumps payload = Some j \<and>
    fst (hset (''task_'' @ tid) kind j sv) = Returns n \<and>
    fst (rpush (prefix self @ ''_list'') tid (snd (hset (''task_'' @ tid) kind j sv))) = Raises e \<longrightarrow>
      fst (put dumps self tid kind payload sv) = Raises (RedisError e) \<and>
      hash_at (snd (put dumps self tid kind payload sv)) (''task_'' @ tid) kind = Some j \<and>
      list_at (snd (put dumps self tid kind payload sv)) (prefix self @ ''_list'') =
        list_at sv (prefix self @ ''_list'')) \<and>
   (redis_client eq = Some c' \<and> fst (rpush (queue_name eq) (task_id task) sv') = Raises e' \<longrightarrow>
      fst (enqueue eq task sv') = Raises (RedisError e') \<and>
      fst (snd (enqueue eq task sv')) =
        task\<lparr>Task.endpoint := EndpointQueue.endpoint eq, status := WAITING_FOR_EP\<rparr> \<and>
      store (snd (snd (enqueue eq task sv'))) = store sv')"
proof (intro conjI impI; elim conjE)
  define k where "k = ''task_'' @ tid"
  define l where "l = prefix self @ ''_list''"
  assume c: "redis_client self = Some c" and j: "dumps payload = Some j"
    and n: "fst (hset (''task_'' @ tid) kind j sv) = Returns n"
    and e: "fst (rpush (prefix self @ ''_list'') tid (snd (hset (''task_'' @ tid) kind j sv))) = Raises e"
  have p: "put dumps self tid kind payload sv = (Raises (RedisError e), snd (rpush l tid (snd (hset k kind j sv))))"
    using put_unfold [where dumps = dumps and payload = payload and tid = tid and kind = kind and sv = sv, OF c j] n e
    by (simp add: k_def l_def)
  have st: "store (snd (rpush l tid (snd (hset k kind j sv)))) = store (snd (hset k kind j sv))"
    using e unfolding k_def l_def by (rule rpush_Raises_store)
  show "fst (put dumps self tid kind payload sv) = Raises (RedisError e)"
    by (simp add: p)
  have "hash_at (snd (put dumps self tid kind payload sv)) k kind = hash_at (snd (hset k kind j sv)) k kind"
    unfolding p snd_conv using st by (simp add: hash_at_def)
  also have "\<dots> = Some j"
    using n unfolding k_def by (rule hset_written)
  finally show "hash_at (snd (put dumps self tid kind payload sv)) (''task_'' @ tid) kind = Some j"
    by (simp add: k_def)
  have "list_at (snd (put dumps self tid kind payload sv)) l = list_at (snd (hset k kind j sv)) l"
    unfolding p snd_conv using st by (simp add: list_at_def)
  also have "\<dots> = list_at sv l"
    by (rule hset_list_at)
  finally show "list_at (snd (put dumps self tid kind payload sv)) (prefix self @ ''_list'') =
        list_at sv (prefix self @ ''_list'')"
    by (simp add: l_def)
next
  assume c: "redis_client eq = Some c'"
    and e: "fst (rpush (queue_name eq) (task_id task) sv') = Raises e'"
  note u = enqueue_unfold [OF c, of task sv']
  show "fst (enqueue eq task sv') = Raises (RedisError e')"
    by (simp add: u e)
  show "fst (snd (enqueue eq task sv')) =
        task\<lparr>Task.endpoint := EndpointQueue.endpoint eq, status := WAITING_FOR_EP\<rparr>"
    by (rule enqueue_task)
  show "store (snd (snd (enqueue eq task sv'))) = store sv'"
    using rpush_Raises_store [OF e] by (simp add: u)
qed

theorem push_failure_keeps_effects_witness:
  "redis_client task_queue = Some handle0 \<and>
   wrap ''ok'' = Some ''[ok]'' \<and>
   fst (hset ''task_01'' ''result'' ''[ok]''
          \<lparr>store = Map.empty, issued = [], faults = [False, True], clock = 0, clients = 1\<rparr>) = Returns 1 \<and>
   fst (rpush ''task_list'' ''01''
          (snd (hset ''task_01'' ''result'' ''[ok]''
             \<lparr>store = Map.empty, issued = [], faults = [False, True], clock = 0, clients = 1\<rparr>)))
     = Raises ConnectionError \<and>
   fst (put wrap task_queue ''01'' ''result'' ''ok''
          \<lparr>store = Map.empty, issued = [], faults = [False, True], clock = 0, clients = 1\<rparr>)
     = Raises (RedisError ConnectionError) \<and>
   hash_at (snd (put wrap task_queue ''01'' ''result'' ''ok''
          \<lparr>store = Map.empty, issued = [], faults = [False, True], clock = 0, clients = 1\<rparr>))
       ''task_01'' ''result'' = Some ''[ok]'' \<and>
   list_at (snd (put wrap task_queue ''01'' ''result'' ''ok''
          \<lparr>store = Map.empty, issued = [], faults = [False, True], clock = 0, clients = 1\<rparr>))
       ''task_list'' = [] \<and>
   redis_client ep_a_queue = Some handle0 \<and>
   fst (rpush ''task_ep-a_list'' ''t1''
          \<lparr>store = [''task_ep-a_list'' \<mapsto> RHash [''result'' \<mapsto> ''[ok]'']], issued = [], faults = [],
           clock = 0, clients = 1\<rparr>) = Raises ResponseError \<and>
   fst (enqueue ep_a_queue \<lparr>task_id = ''t1'', status = CREATED, Task.endpoint = ''''\<rparr>
          \<lparr>store = [''task_ep-a_list'' \<mapsto> RHash [''result'' \<mapsto> ''[ok]'']], issued = [], faults = [],
           clock = 0, clients = 1\<rparr>) = Raises (RedisError ResponseError) \<and>
   fst (snd (enqueue ep_a_queue \<lparr>task_id = ''t1'', status = CREATED, Task.endpoint = ''''\<rparr>
          \<lparr>store = [''task_ep-a_list'' \<mapsto> RHash [''result'' \<mapsto> ''[ok]'']], issued = [], faults = [],
           clock = 0, clients = 1\<rparr>))
     = \<lparr>task_id = ''t1'', status = WAITING_FOR_EP, Task.endpoint = ''ep-a''\<rparr> \<and>
   store (snd (snd (enqueue ep_a_queue \<lparr>task_id = ''t1'', status = CREATED, Task.endpoint = ''''\<rparr>
          \<lparr>store = [''task_ep-a_list'' \<mapsto> RHash [''result'' \<mapsto> ''[ok]'']], issued = [], faults = [],
           clock = 0, clients = 1\<rparr>)))
     = [''task_ep-a_list'' \<mapsto> RHash [''result'' \<mapsto> ''[ok]'']]"
proof -
  let ?sv = "\<lparr>store = Map.empty, issued = [], faults = [False, True], clock = 0, clients = 1\<rparr>"
  let ?sv' = "\<lparr>store = [''task_ep-a_list'' \<mapsto> RHash [''result'' \<mapsto> ''[ok]'']], issued = [],
               faults = [], clock = 0, clients = 1\<rparr>"
  let ?t = "\<lparr>task_id = ''t1'', status = CREATED, Task.endpoint = ''''\<rparr>"
  have h1: "redis_client task_queue = Some handle0" and h2: "wrap ''ok'' = Some ''[ok]''"
    by simp_all
  have h3: "fst (hset (''task_'' @ ''01'') ''result'' ''[ok]'' ?sv) = Returns 1"
    by (simp add: run_defs)
  have h4: "fst (rpush (prefix task_queue @ ''_list'') ''01''
               (snd (hset (''task_'' @ ''01'') ''result'' ''[ok]'' ?sv))) = Raises ConnectionError"
    by (simp add: run_defs)
  have h5: "redis_client ep_a_queue = Some handle0"
    by simp
  have h6: "fst (rpush (queue_name ep_a_queue) (task_id ?t) ?sv') = Raises ResponseError"
    by (simp add: run_defs)
  from push_failure_keeps_effects [where self = task_queue and c = handle0 and dumps = wrap
      and payload = "''ok''" and j = "''[ok]''" and tid = "''01''" and kind = "''result''"
      and sv = ?sv and n = 1 and e = ConnectionError and eq = ep_a_queue and c' = handle0
      and task = ?t and sv' = ?sv' and e' = ResponseError]
  show ?thesis
    using h1 h3 h4 h5 h6 by (simp add: run_defs)
qed

section \<open>Connecting twice\<close>

text \<open>
  C6. \<^verbatim>\<open>connect\<close> on a queue that has a connection handle changes neither the queue nor
  the server. On a queue without one, when the first \<^verbatim>\<open>connect\<close> returns it has created
  one handle (for the queue's host and port) and stored it in the queue; the second
  \<^verbatim>\<open>connect\<close> then returns with the queue and the server untouched, so the two calls
  together created exactly one handle.
\<close>

theorem connect_idempotent:
  "(is_connected self \<longrightarrow> connect self sv = (Returns (), self, sv)) \<and>
   (\<not> is_connected self \<and> fst (connect self sv) = Returns () \<longrightarrow>
      connect (fst (snd (connect self sv))) (snd (snd (connect self sv))) =
        (Returns (), fst (snd (connect self sv)), snd (snd (connect self sv))) \<and>
      fst (snd (connect self sv)) =
        self\<lparr>redis_client := Some \<lparr>host = hostname self, client_port = port self, ident = clients sv\<rparr>\<rparr> \<and>
      clients (snd (snd (connect self sv))) = Suc (clients sv))"
proof (intro conjI impI)
  assume "is_connected self"
  then show "connect self sv = (Returns (), self, sv)"
    by (auto simp: is_connected_def connect_def)
next
  assume a: "\<not> is_connected self \<and> fst (connect self sv) = Returns ()"
  then have none: "redis_client self = None"
    by (simp add: is_connected_def)
  have up: "\<not> link_down sv"
    using a none by (auto simp: connect_def StrictRedis_def split: if_splits)
  have first: "connect self sv =
      (Returns (),
       self\<lparr>redis_client := Some \<lparr>host = hostname self, client_port = port self, ident = clients sv\<rparr>\<rparr>,
       sv\<lparr>faults := drop 1 (faults sv), clients := Suc (clients sv)\<rparr>)"
    using none up by (simp add: connect_def StrictRedis_def)
  show "connect (fst (snd (connect self sv))) (snd (snd (connect self sv))) =
        (Returns (), fst (snd (connect self sv)), snd (snd (connect self sv)))"
    by (simp add: first) (simp add: connect_def)
  show "fst (snd (connect self sv)) =
        self\<lparr>redis_client := Some \<lparr>host = hostname self, client_port = port self, ident = clients sv\<rparr>\<rparr>"
    by (simp add: first)
  show "clients (snd (snd (connect self sv))) = Suc (clients sv)"
    by (simp add: first)
qed

theorem connect_idempotent_witness:
  "is_connected task_queue \<and>
   connect task_queue \<lparr>store = Map.empty, issued = [], faults = [], clock = 0, clients = 1\<rparr>
     = (Returns (), task_queue, \<lparr>store = Map.empty, issued = [], faults = [], clock = 0, clients = 1\<rparr>) \<and>
   \<not> is_connected (RedisQueue_init ''task'' ''127.0.0.1'' 6379) \<and>
   connect (RedisQueue_init ''task'' ''127.0.0.1'' 6379)
       \<lparr>store = Map.empty, issued = [], faults = [], clock = 0, clients = 0\<rparr>
     = (Returns (), task_queue, \<lparr>store = Map.empty, issued = [], faults = [], clock = 0, clients = 1\<rparr>) \<and>
   connect (fst (snd (connect (RedisQueue_init ''task'' ''127.0.0.1'' 6379)
               \<lparr>store = Map.empty, issued = [], faults = [], clock = 0, clients = 0\<rparr>)))
           (snd (snd (connect (RedisQueue_init ''task'' ''127.0.0.1'' 6379)
               \<lparr>store = Map.empty, issued = [], faults = [], clock = 0, clients = 0\<rparr>)))
     = (Returns (), task_queue, \<lparr>store = Map.empty, issued = [], faults = [], clock = 0, clients = 1\<rparr>)"
proof -
  let ?sv1 = "\<lparr>store = Map.empty, issued = [], faults = [], clock = 0, clients = 1\<rparr>"
  let ?sv0 = "\<lparr>store = Map.empty, issued = [], faults = [], clock = 0, clients = 0\<rparr>"
  let ?q0 = "RedisQueue_init ''task'' ''127.0.0.1'' 6379"
  have h1: "is_connected task_queue" and h2: "\<not> is_connected ?q0"
    by (simp_all add: run_defs)
  have h3: "connect ?q0 ?sv0 = (Returns (), task_queue, ?sv1)"
    by (simp add: run_defs)
  from connect_idempotent [of task_queue ?sv1] connect_idempotent [of ?q0 ?sv0]
  show ?thesis
    using h1 h2 h3 by simp
qed

lemma put_not_run:
  "redis_client self = None \<or> dumps payload = None \<Longrightarrow>
     snd (put dumps self tid kind payload sv) = sv"
  by (auto simp: put_def put_try_def split: option.splits)

lemma put_final_state:
  assumes "redis_client self = Some c" "dumps payload = Some j"
  shows "snd (put dumps self tid kind payload sv) =
     (case fst (hset (''task_'' @ tid) kind j sv) of
        Returns n \<Rightarrow> snd (rpush (prefix self @ ''_list'') tid (snd (hset (''task_'' @ tid) kind j sv)))
      | Raises e \<Rightarrow> snd (hset (''task_'' @ tid) kind j sv)
      | Blocks \<Rightarrow> snd (hset (''task_'' @ tid) kind j sv))"
  unfolding put_unfold [where dumps = dumps and payload = payload, OF assms]
  by (simp split: outcome.splits)

lemma put_frame:
  assumes "(name, field) \<noteq> (''task_'' @ tid, kind)"
  shows "hash_at (snd (put dumps self tid kind payload sv)) name field = hash_at sv name field"
proof (cases "redis_client self = None \<or> dumps payload = None")
  case True
  then show ?thesis
    by (simp add: put_not_run)
next
  case False
  then obtain c j where c: "redis_client self = Some c" and j: "dumps payload = Some j"
    by auto
  have h: "hash_at (snd (hset (''task_'' @ tid) kind j sv)) name field = hash_at sv name field"
    using assms by (rule hset_frame)
  show ?thesis
    unfolding put_final_state [where dumps = dumps and payload = payload, OF c j]
    by (simp add: h rpush_frame del: append.simps split: outcome.splits)
qed

lemma put_written:
  assumes "dumps payload = Some j" "fst (put dumps self tid kind payload sv) = Returns ()"
  shows "hash_at (snd (put dumps self tid kind payload sv)) (''task_'' @ tid) kind = Some j"
proof -
  from put_Returns [OF assms(2)] assms(1) obtain c where
    "redis_client self = Some c" "dumps payload = Some j" "link_up_for 2 sv"
    "\<not> holds_list sv (''task_'' @ tid)" "\<not> holds_hash sv (prefix self @ ''_list'')"
    "''task_'' @ tid \<noteq> prefix self @ ''_list''"
    by auto
  from put_ok [where dumps = dumps and payload = payload, OF this] this(6) show ?thesis
    by (simp add: hash_at_def)
qed

section \<open>What a put leaves alone\<close>

text \<open>
  C8. Whatever its outcome, \<^verbatim>\<open>put(task_id, kind, payload)\<close> changes no hash field other
  than field \<open>kind\<close> of \<^verbatim>\<open>task_<task_id>\<close>: every other field of that task, and every
  field of every other key, reads as before. When it returns, that one field holds the
  encoded payload, whatever it held before. So after two puts for the same task id with
  different kinds, each of which returned, both fields hold their own payloads.
\<close>

theorem put_touches_one_field:
  "((name, field) \<noteq> (''task_'' @ tid, kind) \<longrightarrow>
      hash_at (snd (put dumps self tid kind payload sv)) name field = hash_at sv name field) \<and>
   (dumps payload = Some j \<and> fst (put dumps self tid kind payload sv) = Returns () \<longrightarrow>
      hash_at (snd (put dumps self tid kind payload sv)) (''task_'' @ tid) kind = Some j) \<and>
   (other_kind \<noteq> kind \<and> dumps payload = Some j \<and> other_dumps other_payload = Some other_j \<and>
    fst (put dumps self tid kind payload sv) = Returns () \<and>
    fst (put other_dumps other tid other_kind other_payload (snd (put dumps self tid kind payload sv))) = Returns () \<longrightarrow>
      hash_at (snd (put other_dumps other tid other_kind other_payload (snd (put dumps self tid kind payload sv))))
        (''task_'' @ tid) kind = Some j \<and>
      hash_at (snd (put other_dumps other tid other_kind other_payload (snd (put dumps self tid kind payload sv))))
        (''task_'' @ tid) other_kind = Some other_j)"
proof (intro conjI impI; (elim conjE)?)
  assume "(name, field) \<noteq> (''task_'' @ tid, kind)"
  then show "hash_at (snd (put dumps self tid kind payload sv)) name field = hash_at sv name field"
    by (rule put_frame)
next
  assume "dumps payload = Some j" "fst (put dumps self tid kind payload sv) = Returns ()"
  then show "hash_at (snd (put dumps self tid kind payload sv)) (''task_'' @ tid) kind = Some j"
    by (rule put_written)
next
  define sv1 where "sv1 = snd (put dumps self tid kind payload sv)"
  assume ne: "other_kind \<noteq> kind" and j: "dumps payload = Some j" and other_j: "other_dumps other_payload = Some other_j"
    and r1: "fst (put dumps self tid kind payload sv) = Returns ()"
    and r2: "fst (put other_dumps other tid other_kind other_payload (snd (put dumps self tid kind payload sv))) = Returns ()"
  have "(''task_'' @ tid, kind) \<noteq> (''task_'' @ tid, other_kind)"
    using ne by simp
  then have "hash_at (snd (put other_dumps other tid other_kind other_payload sv1)) (''task_'' @ tid) kind =
      hash_at sv1 (''task_'' @ tid) kind"
    by (rule put_frame)
  also have "\<dots> = Some j"
    unfolding sv1_def using j r1 by (rule put_written)
  finally show "hash_at (snd (put other_dumps other tid other_kind other_payload (snd (put dumps self tid kind payload sv))))
        (''task_'' @ tid) kind = Some j"
    by (simp add: sv1_def)
  show "hash_at (snd (put other_dumps other tid other_kind other_payload (snd (put dumps self tid kind payload sv))))
        (''task_'' @ tid) other_kind = Some other_j"
    using other_j r2 by (rule put_written)
qed

theorem put_touches_one_field_witness:
  "(''task_01'', ''function'') \<noteq> (''task_'' @ ''01'', ''args'') \<and>
   wrap ''1'' = Some ''[1]'' \<and> wrap ''ok'' = Some ''[ok]'' \<and> ''result'' \<noteq> ''args'' \<and>
   fst (put wrap task_queue ''01'' ''args'' ''1''
          \<lparr>store = [''task_01'' \<mapsto> RHash [''function'' \<mapsto> ''[f]'', ''args'' \<mapsto> ''[0]'']],
           issued = [], faults = [], clock = 0, clients = 1\<rparr>) = Returns () \<and>
   fst (put wrap ep_a_queue ''01'' ''result'' ''ok''
          (snd (put wrap task_queue ''01'' ''args'' ''1''
             \<lparr>store = [''task_01'' \<mapsto> RHash [''function'' \<mapsto> ''[f]'', ''args'' \<mapsto> ''[0]'']],
              issued = [], faults = [], clock = 0, clients = 1\<rparr>))) = Returns () \<and>
   hash_at (snd (put wrap task_queue ''01'' ''args'' ''1''
          \<lparr>store = [''task_01'' \<mapsto> RHash [''function'' \<mapsto> ''[f]'', ''args'' \<mapsto> ''[0]'']],
           issued = [], faults = [], clock = 0, clients = 1\<rparr>)) ''task_01'' ''function'' = Some ''[f]'' \<and>
   hash_at (snd (put wrap task_queue ''01'' ''args'' ''1''
          \<lparr>store = [''task_01'' \<mapsto> RHash [''function'' \<mapsto> ''[f]'', ''args'' \<mapsto> ''[0]'']],
           issued = [], faults = [], clock = 0, clients = 1\<rparr>)) ''task_01'' ''args'' = Some ''[1]'' \<and>
   hash_at (snd (put wrap ep_a_queue ''01'' ''result'' ''ok''
          (snd (put wrap task_queue ''01'' ''args'' ''1''
             \<lparr>store = [''task_01'' \<mapsto> RHash [''function'' \<mapsto> ''[f]'', ''args'' \<mapsto> ''[0]'']],
              issued = [], faults = [], clock = 0, clients = 1\<rparr>)))) ''task_01'' ''args'' = Some ''[1]'' \<and>
   hash_at (snd (put wrap ep_a_queue ''01'' ''result'' ''ok''
          (snd (put wrap task_queue ''01'' ''args'' ''1''
             \<lparr>store = [''task_01'' \<mapsto> RHash [''function'' \<mapsto> ''[f]'', ''args'' \<mapsto> ''[0]'']],
              issued = [], faults = [], clock = 0, clients = 1\<rparr>)))) ''task_01'' ''result'' = Some ''[ok]''"
proof -
  let ?sv = "\<lparr>store = [''task_01'' \<mapsto> RHash [''function'' \<mapsto> ''[f]'', ''args'' \<mapsto> ''[0]'']],
              issued = [], faults = [], clock = 0, clients = 1\<rparr>"
  have h1: "fst (put wrap task_queue ''01'' ''args'' ''1'' ?sv) = Returns ()"
    by (simp add: run_defs)
  have h2: "fst (put wrap ep_a_queue ''01'' ''result'' ''ok''
              (snd (put wrap task_queue ''01'' ''args'' ''1'' ?sv))) = Returns ()"
    by (simp add: run_defs)
  have h3: "hash_at ?sv ''task_01'' ''function'' = Some ''[f]''"
    by (simp add: hash_at_def)
  from put_touches_one_field [where name = "''task_01''" and field = "''function''"
      and tid = "''01''" and kind = "''args''" and dumps = wrap and self = task_queue
      and payload = "''1''" and sv = ?sv and j = "''[1]''" and other_kind = "''result''"
      and other_dumps = wrap and other_payload = "''ok''" and other_j = "''[ok]''" and other = ep_a_queue]
  show ?thesis
    using h1 h2 h3 by simp
qed

section \<open>The order of the two commands of put\<close>

text \<open>
  C7. On a connected queue with a serializable payload, \<^verbatim>\<open>put\<close> issues HSET first and
  RPUSH, if at all, directly after it: the commands it adds to the connection are HSET
  alone or HSET then RPUSH, never RPUSH first. When RPUSH was issued, HSET had replied, and
  the store it was issued to already held the payload in the hash while the list was still
  as before. And if the list differs from before when \<^verbatim>\<open>put\<close> ends, the payload is in
  the hash.
\<close>

theorem put_writes_before_push:
  assumes "redis_client self = Some c" and "dumps payload = Some j"
  shows "(issued (snd (put dumps self tid kind payload sv)) =
            issued sv @ [HSET (''task_'' @ tid) kind j] \<or>
          issued (snd (put dumps self tid kind payload sv)) =
            issued sv @ [HSET (''task_'' @ tid) kind j, RPUSH (prefix self @ ''_list'') tid]) \<and>
         (issued (snd (put dumps self tid kind payload sv)) =
            issued sv @ [HSET (''task_'' @ tid) kind j, RPUSH (prefix self @ ''_list'') tid] \<longrightarrow>
            (\<exists>n. fst (hset (''task_'' @ tid) kind j sv) = Returns n) \<and>
            hash_at (snd (hset (''task_'' @ tid) kind j sv)) (''task_'' @ tid) kind = Some j \<and>
            list_at (snd (hset (''task_'' @ tid) kind j sv)) (prefix self @ ''_list'') =
              list_at sv (prefix self @ ''_list'') \<and>
            snd (put dumps self tid kind payload sv) =
              snd (rpush (prefix self @ ''_list'') tid (snd (hset (''task_'' @ tid) kind j sv)))) \<and>
         (list_at (snd (put dumps self tid kind payload sv)) (prefix self @ ''_list'') \<noteq>
            list_at sv (prefix self @ ''_list'') \<longrightarrow>
            hash_at (snd (put dumps self tid kind payload sv)) (''task_'' @ tid) kind = Some j)"
proof -
  define k where "k = ''task_'' @ tid"
  define l where "l = prefix self @ ''_list''"
  define sv1 where "sv1 = snd (hset k kind j sv)"
  define sv2 where "sv2 = snd (rpush l tid sv1)"
  define sv' where "sv' = snd (put dumps self tid kind payload sv)"
  note fin = put_final_state [where dumps = dumps and payload = payload and tid = tid
      and kind = kind and sv = sv, OF assms, folded k_def l_def, folded sv1_def, folded sv2_def sv'_def]
  have i1: "issued sv1 = issued sv @ [HSET k kind j]"
    by (simp add: sv1_def)
  have i2: "issued sv2 = issued sv @ [HSET k kind j, RPUSH l tid]"
    by (simp add: sv2_def i1)
  have l1: "list_at sv1 l = list_at sv l"
    unfolding sv1_def by (rule hset_list_at)
  show ?thesis
    unfolding k_def [symmetric] l_def [symmetric] sv1_def [symmetric] sv'_def [symmetric]
  proof (cases "fst (hset k kind j sv)")
    case (Returns n)
    then have s: "sv' = sv2"
      using fin by simp
    have w1: "hash_at sv1 k kind = Some j"
      unfolding sv1_def using Returns by (rule hset_written)
    have w2: "hash_at sv2 k kind = Some j"
      unfolding sv2_def by (simp add: rpush_frame w1)
    show "(issued sv' = issued sv @ [HSET k kind j] \<or> issued sv' = issued sv @ [HSET k kind j, RPUSH l tid]) \<and>
      (issued sv' = issued sv @ [HSET k kind j, RPUSH l tid] \<longrightarrow>
         (\<exists>n. fst (hset k kind j sv) = Returns n) \<and> hash_at sv1 k kind = Some j \<and>
         list_at sv1 l = list_at sv l \<and> sv' = snd (rpush l tid sv1)) \<and>
      (list_at sv' l \<noteq> list_at sv l \<longrightarrow> hash_at sv' k kind = Some j)"
      using Returns by (simp add: s i2 w1 w2 l1 sv2_def [symmetric])
  next
    case (Raises e)
    then have s: "sv' = sv1"
      using fin by simp
    show "(issued sv' = issued sv @ [HSET k kind j] \<or> issued sv' = issued sv @ [HSET k kind j, RPUSH l tid]) \<and>
      (issued sv' = issued sv @ [HSET k kind j, RPUSH l tid] \<longrightarrow>
         (\<exists>n. fst (hset k kind j sv) = Returns n) \<and> hash_at sv1 k kind = Some j \<and>
         list_at sv1 l = list_at sv l \<and> sv' = snd (rpush l tid sv1)) \<and>
      (list_at sv' l \<noteq> list_at sv l \<longrightarrow> hash_at sv' k kind = Some j)"
      by (simp add: s i1 l1)
  next
    case Blocks
    then show "(issued sv' = issued sv @ [HSET k kind j] \<or> issued sv' = issued sv @ [HSET k kind j, RPUSH l tid]) \<and>
      (issued sv' = issued sv @ [HSET k kind j, RPUSH l tid] \<longrightarrow>
         (\<exists>n. fst (hset k kind j sv) = Returns n) \<and> hash_at sv1 k kind = Some j \<and>
         list_at sv1 l = list_at sv l \<and> sv' = snd (rpush l tid sv1)) \<and>
      (list_at sv' l \<noteq> list_at sv l \<longrightarrow> hash_at sv' k kind = Some j)"
      by simp
  qed
qed

theorem put_writes_before_push_witness:
  "redis_client task_queue = Some handle0 \<and>
   wrap ''ok'' = Some ''[ok]'' \<and>
   issued (snd (put wrap task_queue ''01'' ''result'' ''ok''
      \<lparr>store = [''task_list'' \<mapsto> RList [''00'']], issued = [], faults = [], clock = 0, clients = 1\<rparr>))
     = [HSET ''task_01'' ''result'' ''[ok]'', RPUSH ''task_list'' ''01''] \<and>
   fst (hset ''task_01'' ''result'' ''[ok]''
      \<lparr>store = [''task_list'' \<mapsto> RList [''00'']], issued = [], faults = [], clock = 0, clients = 1\<rparr>)
     = Returns 1 \<and>
   hash_at (snd (hset ''task_01'' ''result'' ''[ok]''
      \<lparr>store = [''task_list'' \<mapsto> RList [''00'']], issued = [], faults = [], clock = 0, clients = 1\<rparr>))
      ''task_01'' ''result'' = Some ''[ok]'' \<and>
   list_at (snd (hset ''task_01'' ''result'' ''[ok]''
      \<lparr>store = [''task_list'' \<mapsto> RList [''00'']], issued = [], faults = [], clock = 0, clients = 1\<rparr>))
      ''task_list'' = [''00''] \<and>
   list_at (snd (put wrap task_queue ''01'' ''result'' ''ok''
      \<lparr>store = [''task_list'' \<mapsto> RList [''00'']], issued = [], faults = [], clock = 0, clients = 1\<rparr>))
      ''task_list'' = [''00'', ''01''] \<and>
   hash_at (snd (put wrap task_queue ''01'' ''result'' ''ok''
      \<lparr>store = [''task_list'' \<mapsto> RList [''00'']], issued = [], faults = [], clock = 0, clients = 1\<rparr>))
      ''task_01'' ''result'' = Some ''[ok]''"
proof -
  let ?sv = "\<lparr>store = [''task_list'' \<mapsto> RList [''00'']], issued = [], faults = [], clock = 0, clients = 1\<rparr>"
  have h1: "redis_client task_queue = Some handle0" and h2: "wrap ''ok'' = Some ''[ok]''"
    by simp_all
  have h3: "issued (snd (put wrap task_queue ''01'' ''result'' ''ok'' ?sv))
     = [HSET ''task_01'' ''result'' ''[ok]'', RPUSH ''task_list'' ''01'']"
    by (simp add: run_defs)
  have h4: "list_at (snd (put wrap task_queue ''01'' ''result'' ''ok'' ?sv)) ''task_list'' = [''00'', ''01'']"
    by (simp add: run_defs)
  have h5: "fst (hset ''task_01'' ''result'' ''[ok]'' ?sv) = Returns 1"
    by (simp add: run_defs)
  have h6: "list_at ?sv ''task_list'' = [''00'']"
    by (simp add: list_at_def)
  from put_writes_before_push [where dumps = wrap and payload = "''ok''", OF h1 h2,
      where tid = "''01''" and kind = "''result''" and sv = ?sv]
  show ?thesis
    using h3 h4 h5 h6 by (simp add: run_defs)
qed

lemma hget_not_Blocks [simp]: "fst (hget name key sv) \<noteq> Blocks"
  by (simp add: hget_def Let_def split: option.splits redis_value.splits)

lemma get_Empty_iff:
  assumes "redis_client self = Some c"
  shows "(fst (get loads self kind timeout sv) = Raises Empty) =
         (fst (blpop (prefix self @ ''_list'') timeout sv) = Returns None)"
proof -
  define l where "l = prefix self @ ''_list''"
  obtain r sv1 where b: "blpop l timeout sv = (r, sv1)"
    by (cases "blpop l timeout sv")
  show ?thesis
    unfolding l_def [symmetric]
  proof (cases r)
    case (Returns x)
    show "(fst (get loads self kind timeout sv) = Raises Empty) = (fst (blpop l timeout sv) = Returns None)"
    proof (cases x)
      case None
      then show ?thesis
        using Returns b assms by (simp add: get_def get_try_def l_def [symmetric])
    next
      case (Some pr)
      obtain lname tid where pr: "pr = (lname, tid)"
        by (cases pr)
      obtain r2 sv2 where g: "hget (''task_'' @ tid) kind sv1 = (r2, sv2)"
        by (cases "hget (''task_'' @ tid) kind sv1")
      show ?thesis
        using Returns Some pr b g assms
        by (cases r2)
          (auto simp: get_def get_try_def l_def [symmetric] simp del: append.simps split: option.splits)
    qed
  next
    case (Raises e)
    then show "(fst (get loads self kind timeout sv) = Raises Empty) = (fst (blpop l timeout sv) = Returns None)"
      using b assms by (simp add: get_def get_try_def l_def [symmetric])
  next
    case Blocks
    then show "(fst (get loads self kind timeout sv) = Raises Empty) = (fst (blpop l timeout sv) = Returns None)"
      using b assms by (simp add: get_def get_try_def l_def [symmetric])
  qed
qed

lemma dequeue_Empty_iff:
  assumes "redis_client self = Some c"
  shows "(fst (dequeue from_id self timeout sv) = Raises Empty) =
         (fst (blpop (queue_name self) timeout sv) = Returns None)"
proof -
  obtain r sv1 where b: "blpop (queue_name self) timeout sv = (r, sv1)"
    by (cases "blpop (queue_name self) timeout sv")
  show ?thesis
    using b assms
    by (cases r) (auto simp: dequeue_def split: option.splits)
qed

lemma blpop_refused:
  assumes "\<not> link_down sv" and "timeout_refused sv timeout"
  shows "blpop name timeout sv = (Raises ResponseError, sent (BLPOP name timeout) sv)"
  using assms by (simp add: blpop_def Let_def)

lemma get_dequeue_refused:
  assumes "redis_client self = Some c" and "redis_client eq = Some c'"
    and "\<not> link_down sv" and "timeout_refused sv timeout"
  shows "get loads self kind timeout sv =
           (Raises (RedisError ResponseError), sent (BLPOP (prefix self @ ''_list'') timeout) sv)"
    and "dequeue from_id eq timeout sv =
           (Raises (RedisError ResponseError), sent (BLPOP (queue_name eq) timeout) sv)"
  using assms by (simp_all add: get_def get_try_def dequeue_def blpop_refused)

lemma out_of_range_timeouts:
  "timeout_refused \<lparr>store = st, issued = cs, faults = fs, clock = 1800000000, clients = n\<rparr>
     9223372036854776"
  "timeout_refused \<lparr>store = st, issued = cs, faults = fs, clock = 1800000000, clients = n\<rparr>
     9223372036854775"
  "\<not> timeout_refused \<lparr>store = st, issued = cs, faults = fs, clock = 1800000000, clients = n\<rparr>
     9223370236854775"
  "timeout_refused \<lparr>store = st, issued = cs, faults = fs, clock = 0, clients = n\<rparr>
     9223372036854776"
  "timeout_refused sv (- 1)"
  "\<not> timeout_refused sv 0"
  by (simp_all add: timeout_refused_def)

section \<open>An empty list\<close>

text \<open>
  C5, as the code has it. Time is the store's: the queue hands its timeout to BLPOP
  unchanged and adds no wait of its own. On a connected queue with a reachable store and
  an empty list, \<^verbatim>\<open>get(kind, t)\<close> and \<^verbatim>\<open>dequeue(t)\<close> with \<open>t > 0\<close> in the store's range
  issue that one command and raise \<^verbatim>\<open>Empty\<close> when it times out, with the clock \<open>t\<close>
  seconds on; a timeout the store refuses makes both raise its error reply at once. On a
  connected queue, whatever the timeout and the store, \<^verbatim>\<open>Empty\<close> is raised exactly when
  the blocking pop replies with no element.
\<close>

theorem empty_after_timeout:
  assumes "is_connected self" and "is_connected eq"
  shows "(0 < t \<and> \<not> timeout_refused sv t \<and> \<not> link_down sv \<and>
          list_at sv (prefix self @ ''_list'') = [] \<and>
          \<not> holds_hash sv (prefix self @ ''_list'') \<longrightarrow>
            get loads self kind t sv =
              (Raises Empty, (sent (BLPOP (prefix self @ ''_list'') t) sv)\<lparr>clock := clock sv + t\<rparr>)) \<and>
         (0 < t \<and> \<not> timeout_refused sv t \<and> \<not> link_down sv \<and>
          list_at sv (queue_name eq) = [] \<and>
          \<not> holds_hash sv (queue_name eq) \<longrightarrow>
            dequeue from_id eq t sv =
              (Raises Empty, (sent (BLPOP (queue_name eq) t) sv)\<lparr>clock := clock sv + t\<rparr>)) \<and>
         (fst (get loads self kind t sv) = Raises Empty) =
           (fst (blpop (prefix self @ ''_list'') t sv) = Returns None) \<and>
         (fst (dequeue from_id eq t sv) = Raises Empty) =
           (fst (blpop (queue_name eq) t sv) = Returns None)"
proof -
  from assms obtain c c' where c: "redis_client self = Some c" and c': "redis_client eq = Some c'"
    by (auto simp: is_connected_def)
  have "get loads self kind t sv =
      (Raises Empty, (sent (BLPOP (prefix self @ ''_list'') t) sv)\<lparr>clock := clock sv + t\<rparr>)"
    if "0 < t" "\<not> timeout_refused sv t" "\<not> link_down sv"
      "list_at sv (prefix self @ ''_list'') = []" "\<not> holds_hash sv (prefix self @ ''_list'')"
    using blpop_timeout [OF that(3,1,2,4,5)] c by (simp add: get_def get_try_def)
  moreover have "dequeue from_id eq t sv =
      (Raises Empty, (sent (BLPOP (queue_name eq) t) sv)\<lparr>clock := clock sv + t\<rparr>)"
    if "0 < t" "\<not> timeout_refused sv t" "\<not> link_down sv"
      "list_at sv (queue_name eq) = []" "\<not> holds_hash sv (queue_name eq)"
    using blpop_timeout [OF that(3,1,2,4,5)] c' by (simp add: dequeue_def)
  ultimately show ?thesis
    using get_Empty_iff [OF c, of loads kind t sv] dequeue_Empty_iff [OF c', of from_id t sv]
    by blast
qed

theorem empty_after_timeout_witness:
  "is_connected task_queue \<and> is_connected ep_a_queue \<and>
   (0::int) < 2 \<and>
   \<not> timeout_refused \<lparr>store = Map.empty, issued = [], faults = [], clock = 1800000000, clients = 1\<rparr> 2 \<and>
   \<not> link_down \<lparr>store = Map.empty, issued = [], faults = [], clock = 1800000000, clients = 1\<rparr> \<and>
   list_at \<lparr>store = Map.empty, issued = [], faults = [], clock = 1800000000, clients = 1\<rparr> ''task_list'' = [] \<and>
   list_at \<lparr>store = Map.empty, issued = [], faults = [], clock = 1800000000, clients = 1\<rparr> ''task_ep-a_list'' = [] \<and>
   get unwrap task_queue ''result'' 2
       \<lparr>store = Map.empty, issued = [], faults = [], clock = 1800000000, clients = 1\<rparr>
     = (Raises Empty,
        \<lparr>store = Map.empty, issued = [BLPOP ''task_list'' 2], faults = [], clock = 1800000002, clients = 1\<rparr>) \<and>
   dequeue (\<lambda>c i. \<lparr>task_id = i, status = WAITING_FOR_EP, Task.endpoint = ''ep-a''\<rparr>) ep_a_queue 2
       \<lparr>store = Map.empty, issued = [], faults = [], clock = 1800000000, clients = 1\<rparr>
     = (Raises Empty,
        \<lparr>store = Map.empty, issued = [BLPOP ''task_ep-a_list'' 2], faults = [], clock = 1800000002, clients = 1\<rparr>) \<and>
   fst (blpop ''task_list'' 2
       \<lparr>store = Map.empty, issued = [], faults = [], clock = 1800000000, clients = 1\<rparr>) = Returns None \<and>
   fst (blpop ''task_ep-a_list'' 2
       \<lparr>store = Map.empty, issued = [], faults = [], clock = 1800000000, clients = 1\<rparr>) = Returns None"
proof -
  let ?sv = "\<lparr>store = Map.empty, issued = [], faults = [], clock = 1800000000, clients = 1\<rparr>"
  let ?from_id = "\<lambda>(c::redis_client) i. \<lparr>task_id = i, status = WAITING_FOR_EP, Task.endpoint = ''ep-a''\<rparr>"
  have h1: "is_connected task_queue" and h2: "is_connected ep_a_queue"
    by (simp_all add: run_defs)
  have h3: "\<not> timeout_refused ?sv 2"
    "\<not> link_down ?sv" "list_at ?sv (prefix task_queue @ ''_list'') = []"
    "\<not> holds_hash ?sv (prefix task_queue @ ''_list'')"
    "list_at ?sv (queue_name ep_a_queue) = []" "\<not> holds_hash ?sv (queue_name ep_a_queue)"
    by (simp_all add: run_defs)
  from empty_after_timeout [OF h1 h2, where t = 2 and sv = ?sv and loads = unwrap
      and kind = "''result''" and from_id = ?from_id]
  show ?thesis
    using h1 h2 h3 by (simp add: run_defs)
qed

text \<open>
  For the timeout 0, which the queue passes on like any other, the statement fails:
  BLPOP with timeout 0 waits without end, so on an empty list \<^verbatim>\<open>get\<close> and \<^verbatim>\<open>dequeue\<close>
  never return and \<^verbatim>\<open>Empty\<close> is not raised.
\<close>

theorem empty_after_timeout_counterexample:
  "is_connected task_queue \<and> is_connected ep_a_queue \<and>
   list_at \<lparr>store = Map.empty, issued = [], faults = [], clock = 1800000000, clients = 1\<rparr> ''task_list'' = [] \<and>
   list_at \<lparr>store = Map.empty, issued = [], faults = [], clock = 1800000000, clients = 1\<rparr> ''task_ep-a_list'' = [] \<and>
   get unwrap task_queue ''result'' 0
       \<lparr>store = Map.empty, issued = [], faults = [], clock = 1800000000, clients = 1\<rparr>
     = (Blocks, \<lparr>store = Map.empty, issued = [BLPOP ''task_list'' 0], faults = [], clock = 1800000000, clients = 1\<rparr>) \<and>
   fst (get unwrap task_queue ''result'' 0
       \<lparr>store = Map.empty, issued = [], faults = [], clock = 1800000000, clients = 1\<rparr>) \<noteq> Raises Empty \<and>
   dequeue (\<lambda>c i. \<lparr>task_id = i, status = WAITING_FOR_EP, Task.endpoint = ''ep-a''\<rparr>) ep_a_queue 0
       \<lparr>store = Map.empty, issued = [], faults = [], clock = 1800000000, clients = 1\<rparr>
     = (Blocks, \<lparr>store = Map.empty, issued = [BLPOP ''task_ep-a_list'' 0], faults = [], clock = 1800000000, clients = 1\<rparr>) \<and>
   fst (dequeue (\<lambda>c i. \<lparr>task_id = i, status = WAITING_FOR_EP, Task.endpoint = ''ep-a''\<rparr>) ep_a_queue 0
       \<lparr>store = Map.empty, issued = [], faults = [], clock = 1800000000, clients = 1\<rparr>) \<noteq> Raises Empty"
  by (simp add: run_defs)

end
